theory Spec2Isabelle
  imports Complex_Main "HOL-Library.Multiset"
begin

section \<open>Data model (types of the message service)\<close>

text \<open>
  The canonical message, the conversation summary and the result pair are the interfaces
  \<^verbatim>\<open>Message\<close>, \<^verbatim>\<open>Contact\<close> and \<^verbatim>\<open>ApiResponse\<close> of the type declarations; the raw
  message is the interface \<^verbatim>\<open>ApiMessage\<close> of \<^verbatim>\<open>utils/api.ts\<close>. Field names that
  occur in two interfaces, or that clash with a HOL constant, carry a prefix.
  The optional field \<^verbatim>\<open>id\<close> is an option; \<^verbatim>\<open>unread\<close> is optional in the interface
  but the aggregator always assigns it a boolean.
\<close>

datatype direction = Incoming | Outgoing

datatype delivery_status = Sent | Delivered | Read | Failed

record Message =
  conversationId :: string
  timestamp :: string
  body :: string
  direction :: direction
  msgId :: "string option"
  status :: "delivery_status option"

record Contact =
  phone :: string
  name :: string
  lastMessage :: string
  contactTimestamp :: string
  unread :: bool

record 'a ApiResponse =
  data :: 'a
  error :: "string option"

datatype api_direction = INBOUND | OUTBOUND

text \<open>The phone number of a raw message is a number or a string. A number of a parsed
  JSON text is a finite double; it is modelled by the real number it denotes.\<close>

datatype phone_token = PhoneNumber real | PhoneString string

record ApiMessage =
  apiId :: string
  phoneNumber :: phone_token
  apiDirection :: api_direction
  apiLastMessage :: string
  lastMessageHK :: string
  lastMessageSL :: string

section \<open>The JavaScript runtime the service runs on\<close>

text \<open>
  A thrown value is an \<^verbatim>\<open>Error\<close> object with a name and a message, or some other value.
\<close>

datatype js_error = JsError (errName: string) (errMessage: string) | NonError

text \<open>
  The library of the engine is a parameter of the model. \<open>parseDate rt s\<close> is the time
  value (milliseconds since the epoch) of \<^verbatim>\<open>new Date(s)\<close>, \<open>None\<close> when the date is
  invalid (\<^verbatim>\<open>getTime()\<close> is \<^verbatim>\<open>NaN\<close>); \<open>toISOString rt t\<close> is the ISO 8601 string
  of the valid time value \<open>t\<close>. \<open>trimString rt s\<close> is \<^verbatim>\<open>s.trim()\<close>, which strips the
  white space and the line terminators of the Unicode standard at both ends.
  \<open>numberString rt x\<close> is \<^verbatim>\<open>String(x)\<close> of the number \<open>x\<close>, also the text a template
  literal gives for it. The two message texts are the engine's texts of the
  \<^verbatim>\<open>RangeError\<close> of \<^verbatim>\<open>toISOString\<close> on an invalid date and of the \<^verbatim>\<open>TypeError\<close>
  of a property read on \<^verbatim>\<open>null\<close>. No property of these functions is assumed.
\<close>

record js_runtime =
  parseDate :: "string \<Rightarrow> int option"
  toISOString :: "int \<Rightarrow> string"
  trimString :: "string \<Rightarrow> string"
  numberString :: "real \<Rightarrow> string"
  invalidTimeMessage :: string
  nullReadMessage :: string

text \<open>\<^verbatim>\<open>Date.prototype.toISOString\<close>: throws a \<^verbatim>\<open>RangeError\<close> on an invalid date.\<close>

definition dateToISOString :: "js_runtime \<Rightarrow> int option \<Rightarrow> js_error + string" where
  "dateToISOString rt d =
     (case d of
        None \<Rightarrow> Inl (JsError ''RangeError'' (invalidTimeMessage rt))
      | Some t \<Rightarrow> Inr (toISOString rt t))"

text \<open>\<^verbatim>\<open>String.prototype.includes\<close>: the argument occurs as a substring.\<close>

fun str_includes :: "string \<Rightarrow> string \<Rightarrow> bool" where
  "str_includes [] sub = (sub = [])"
| "str_includes (c # cs) sub = (take (length sub) (c # cs) = sub \<or> str_includes cs sub)"

text \<open>A string is truthy when it is not empty; an absent optional string is falsy.\<close>

definition truthy :: "string option \<Rightarrow> bool" where
  "truthy v = (case v of None \<Rightarrow> False | Some s \<Rightarrow> s \<noteq> [])"

text \<open>The guard \<^verbatim>\<open>!url || url.trim() === ''\<close> of both transport operations.\<close>

definition notConfigured :: "js_runtime \<Rightarrow> string \<Rightarrow> bool" where
  "notConfigured rt url = (url = [] \<or> trimString rt url = [])"

section \<open>Timestamp normalizer\<close>

text \<open>
  \<^verbatim>\<open>convertTimestamp\<close>: the body of the \<^verbatim>\<open>try\<close> block, with \<open>now\<close> the clock reading
  of \<^verbatim>\<open>new Date()\<close>. The first branch handles the strings that contain a slash and a
  comma, the second every other string, the third falls back to the clock.
\<close>

definition convertTimestamp_try :: "js_runtime \<Rightarrow> int \<Rightarrow> string \<Rightarrow> js_error + string" where
  "convertTimestamp_try rt now ts =
     (if str_includes ts ''/'' \<and> str_includes ts '','' \<and> parseDate rt ts \<noteq> None
      then dateToISOString rt (parseDate rt ts)
      else if parseDate rt ts \<noteq> None
      then dateToISOString rt (parseDate rt ts)
      else dateToISOString rt (Some now))"

text \<open>The whole function: the \<^verbatim>\<open>catch\<close> block returns the clock reading too.\<close>

definition convertTimestamp :: "js_runtime \<Rightarrow> int \<Rightarrow> string \<Rightarrow> string" where
  "convertTimestamp rt now ts =
     (case convertTimestamp_try rt now ts of
        Inr s \<Rightarrow> s
      | Inl e \<Rightarrow> toISOString rt now)"

section \<open>JSON values and the raw messages of a fetched batch\<close>

text \<open>The parsed body of a response.\<close>

datatype json =
    JNull
  | JBool bool
  | JNumber real
  | JString string
  | JArray "json list"
  | JObject "(string \<times> json) list"

text \<open>A property read on a parsed object; of a repeated key the last value counts.\<close>

definition property :: "(string \<times> json) list \<Rightarrow> string \<Rightarrow> json option" where
  "property kvs f = map_of (rev kvs) f"

fun stringOf :: "json option \<Rightarrow> string option" where
  "stringOf (Some (JString s)) = Some s"
| "stringOf _ = None"

fun phoneOf :: "json option \<Rightarrow> phone_token option" where
  "phoneOf (Some (JNumber n)) = Some (PhoneNumber n)"
| "phoneOf (Some (JString s)) = Some (PhoneString s)"
| "phoneOf _ = None"

fun directionOf :: "json option \<Rightarrow> api_direction option" where
  "directionOf (Some (JString s)) =
     (if s = ''INBOUND'' then Some INBOUND
      else if s = ''OUTBOUND'' then Some OUTBOUND
      else None)"
| "directionOf _ = None"

text \<open>
  The six checks of the validation filter (\<^verbatim>\<open>hasId\<close>, \<^verbatim>\<open>hasPhone\<close>, \<^verbatim>\<open>hasDirection\<close>,
  \<^verbatim>\<open>hasMessage\<close>, \<^verbatim>\<open>hasHKTime\<close>, \<^verbatim>\<open>hasSLTime\<close>) on an object, giving the typed raw
  message when all hold.
\<close>

definition asApiMessage :: "(string \<times> json) list \<Rightarrow> ApiMessage option" where
  "asApiMessage fs =
     (case stringOf (property fs ''id'') of None \<Rightarrow> None | Some i \<Rightarrow>
     (case phoneOf (property fs ''phoneNumber'') of None \<Rightarrow> None | Some p \<Rightarrow>
     (case directionOf (property fs ''direction'') of None \<Rightarrow> None | Some d \<Rightarrow>
     (case stringOf (property fs ''lastMessage'') of None \<Rightarrow> None | Some b \<Rightarrow>
     (case stringOf (property fs ''lastMessageHK'') of None \<Rightarrow> None | Some hk \<Rightarrow>
     (case stringOf (property fs ''lastMessageSL'') of None \<Rightarrow> None | Some sl \<Rightarrow>
        Some \<lparr>apiId = i, phoneNumber = p, apiDirection = d, apiLastMessage = b,
              lastMessageHK = hk, lastMessageSL = sl\<rparr>))))))"

text \<open>
  The callback of the validation filter on one element. It reads \<^verbatim>\<open>msg.id\<close> before it
  tests \<^verbatim>\<open>msg\<close>, so a \<^verbatim>\<open>null\<close> element throws a \<^verbatim>\<open>TypeError\<close>; an element that is
  not an object has none of the properties and is dropped.
\<close>

fun validMessage :: "js_runtime \<Rightarrow> json \<Rightarrow> js_error + ApiMessage option" where
  "validMessage rt JNull = Inl (JsError ''TypeError'' (nullReadMessage rt))"
| "validMessage rt (JObject fs) = Inr (asApiMessage fs)"
| "validMessage rt v = Inr None"

fun validMessages :: "js_runtime \<Rightarrow> json list \<Rightarrow> js_error + ApiMessage list" where
  "validMessages rt [] = Inr []"
| "validMessages rt (x # xs) =
     (case validMessage rt x of
        Inl e \<Rightarrow> Inl e
      | Inr v \<Rightarrow>
          (case validMessages rt xs of
             Inl e \<Rightarrow> Inl e
           | Inr vs \<Rightarrow> Inr (case v of None \<Rightarrow> vs | Some m \<Rightarrow> m # vs)))"

section \<open>The network\<close>

text \<open>
  What the network does with one request is an input of the model: the \<^verbatim>\<open>fetch\<close>
  promise rejects with a thrown value (a timeout of the abort signal, a network failure),
  or it resolves to a response. Of a response the model keeps the status, the status
  text, the result of \<^verbatim>\<open>text()\<close> (\<open>None\<close> when it rejects) and the result of
  \<^verbatim>\<open>json()\<close> (the parsed body or the thrown error).
\<close>

record http_response =
  httpStatus :: nat
  statusText :: string
  responseText :: "string option"
  responseJson :: "js_error + json"

datatype net_outcome = Rejected js_error | Responded http_response

definition responseOk :: "http_response \<Rightarrow> bool" where
  "responseOk r = (200 \<le> httpStatus r \<and> httpStatus r \<le> 299)"

text \<open>The message of the error thrown on a response that is not ok.\<close>

definition httpErrorMessage :: "js_runtime \<Rightarrow> http_response \<Rightarrow> string" where
  "httpErrorMessage rt r =
     (let errorText = (case responseText r of None \<Rightarrow> ''Unknown error'' | Some t \<Rightarrow> t)
      in ''HTTP '' @ numberString rt (real (httpStatus r)) @ '': '' @ statusText r @
         (if errorText \<noteq> [] then '' - '' @ errorText else []))"

datatype request =
    GetRequest string
  | PostRequest (postUrl: string) (postTo: string) (postBody: string) (postTimestamp: string)

section \<open>The service state\<close>

record service_settings =
  n8nWebhookUrl :: string
  n8nGetMessagesUrl :: string
  pollingInterval :: nat

datatype event = ErrorRaised string | NewMessages "Message list"

text \<open>
  The fields of the class \<^verbatim>\<open>ApiService\<close> that the modelled operations use. The two
  callback slots record whether a subscriber is registered. The last three fields are
  not fields of the class: they record the effects on the environment, in order: the
  requests sent to the network, the delays in milliseconds of the one-shot timers
  started with \<^verbatim>\<open>setTimeout\<close> (the handle of a timer is its position), and the calls
  of the registered callbacks.
\<close>

record ApiService =
  settings :: service_settings
  processedMessageIds :: "string set"
  allMessages :: "Message list"
  retryTimeout :: "nat option"
  onNewMessageCallback :: bool
  onErrorCallback :: bool
  requests :: "request list"
  timers :: "nat list"
  events :: "event list"

text \<open>The state after the constructor, for given settings.\<close>

definition newApiService :: "service_settings \<Rightarrow> ApiService" where
  "newApiService st =
     \<lparr>settings = st, processedMessageIds = {}, allMessages = [], retryTimeout = None,
      onNewMessageCallback = False, onErrorCallback = False,
      requests = [], timers = [], events = []\<rparr>"

definition setNewMessageCallback :: "ApiService \<Rightarrow> ApiService" where
  "setNewMessageCallback s = s\<lparr>onNewMessageCallback := True\<rparr>"

definition setErrorCallback :: "ApiService \<Rightarrow> ApiService" where
  "setErrorCallback s = s\<lparr>onErrorCallback := True\<rparr>"

section \<open>Fetching (fetchMessagesFromApi)\<close>

text \<open>
  The \<^verbatim>\<open>try\<close> block: the configuration check comes before the request, and only a
  request that is made is recorded. A body that is not an array returns a result with
  an error, without throwing.
\<close>

definition fetchMessages_try ::
  "js_runtime \<Rightarrow> net_outcome \<Rightarrow> ApiService \<Rightarrow>
   (js_error + ApiMessage list ApiResponse) \<times> ApiService" where
  "fetchMessages_try rt net s =
     (let url = n8nGetMessagesUrl (settings s) in
      if notConfigured rt url
      then (Inl (JsError ''Error''
                  ''n8n Get Messages URL not configured. Please check Settings.''), s)
      else
        (case net of
           Rejected e \<Rightarrow> Inl e
         | Responded r \<Rightarrow>
             if \<not> responseOk r then Inl (JsError ''Error'' (httpErrorMessage rt r))
             else
               (case responseJson r of
                  Inl e \<Rightarrow> Inl e
                | Inr (JArray arr) \<Rightarrow>
                    (case validMessages rt arr of
                       Inl e \<Rightarrow> Inl e
                     | Inr ms \<Rightarrow> Inr \<lparr>data = ms, error = None\<rparr>)
                | Inr other \<Rightarrow>
                    Inr \<lparr>data = [], error = Some
                      ''API response must be an array of message objects. Please check your n8n webhook configuration.''\<rparr>),
         s\<lparr>requests := requests s @ [GetRequest url]\<rparr>))"

text \<open>The \<^verbatim>\<open>catch\<close> block: the error string of a thrown value.\<close>

definition fetchErrorMessage :: "js_error \<Rightarrow> string" where
  "fetchErrorMessage e =
     (case e of
        NonError \<Rightarrow> ''Network connection failed''
      | JsError n m \<Rightarrow>
          if n = ''AbortError''
          then ''Request timeout - n8n endpoint took too long to respond''
          else if str_includes m ''NetworkError'' \<or> str_includes m ''ERR_NETWORK''
          then ''Network error - cannot reach n8n endpoint. Please check your internet connection and n8n URL in Settings.''
          else if str_includes m ''Failed to fetch''
          then ''Cannot connect to n8n endpoint. Please check your internet connection and n8n URL in Settings.''
          else if str_includes m ''ENOTFOUND'' \<or> str_includes m ''ECONNREFUSED''
          then ''n8n endpoint not found or refused connection. Please verify the URL in Settings and ensure n8n is running.''
          else m)"

definition fetchMessagesFromApi ::
  "js_runtime \<Rightarrow> net_outcome \<Rightarrow> ApiService \<Rightarrow> ApiMessage list ApiResponse \<times> ApiService" where
  "fetchMessagesFromApi rt net s =
     (case fetchMessages_try rt net s of
        (Inl e, s') \<Rightarrow> (\<lparr>data = [], error = Some (fetchErrorMessage e)\<rparr>, s')
      | (Inr r, s') \<Rightarrow> (r, s'))"

section \<open>Polling and merging (pollMessages)\<close>

definition convertApiMessage :: "js_runtime \<Rightarrow> int \<Rightarrow> ApiMessage \<Rightarrow> Message" where
  "convertApiMessage rt now m =
     (let d = (if apiDirection m = INBOUND then Incoming else Outgoing) in
      \<lparr>conversationId =
         (case phoneNumber m of PhoneNumber n \<Rightarrow> numberString rt n | PhoneString p \<Rightarrow> p),
       timestamp = convertTimestamp rt now (lastMessageHK m),
       body = apiLastMessage m,
       direction = d,
       msgId = Some (apiId m),
       status = (if d = Outgoing then Some Delivered else None)\<rparr>)"

text \<open>
  The \<^verbatim>\<open>map\<close> over the batch; \<open>clock i\<close> is the clock reading while the element at
  position \<open>i\<close> is converted (it is used only when its timestamp does not parse).
\<close>

definition convertAll :: "js_runtime \<Rightarrow> (nat \<Rightarrow> int) \<Rightarrow> ApiMessage list \<Rightarrow> Message list" where
  "convertAll rt clock batch =
     map (\<lambda>(i, m). convertApiMessage rt (clock i) m) (enumerate 0 batch)"

text \<open>
  \<^verbatim>\<open>Array.prototype.sort\<close> with a comparator: the sort is stable, and an element moves
  behind another when the comparator is positive. A comparator value \<^verbatim>\<open>NaN\<close> counts as
  zero. For a comparator that is a consistent order this is the result of every stable
  sort; the result is a permutation of the input for every comparator.
\<close>

fun insertSorted :: "('a \<Rightarrow> 'a \<Rightarrow> int) \<Rightarrow> 'a \<Rightarrow> 'a list \<Rightarrow> 'a list" where
  "insertSorted cmp x [] = [x]"
| "insertSorted cmp x (y # ys) =
     (if cmp x y > 0 then y # insertSorted cmp x ys else x # y # ys)"

definition arraySort :: "('a \<Rightarrow> 'a \<Rightarrow> int) \<Rightarrow> 'a list \<Rightarrow> 'a list" where
  "arraySort cmp xs = foldr (insertSorted cmp) xs []"

text \<open>The difference of two time values; with an invalid date it is \<^verbatim>\<open>NaN\<close>, hence zero.\<close>

definition timeDifference :: "js_runtime \<Rightarrow> string \<Rightarrow> string \<Rightarrow> int" where
  "timeDifference rt a b =
     (case parseDate rt a of
        None \<Rightarrow> 0
      | Some x \<Rightarrow> (case parseDate rt b of None \<Rightarrow> 0 | Some y \<Rightarrow> x - y))"

definition messagesAscending :: "js_runtime \<Rightarrow> Message \<Rightarrow> Message \<Rightarrow> int" where
  "messagesAscending rt a b = timeDifference rt (timestamp a) (timestamp b)"

text \<open>
  The filter that finds the new messages. Its callback adds to the set of processed
  identifiers while the filter runs, so the set is threaded through the traversal.
  A message without identifier, or with the empty one, is skipped.
\<close>

fun filterNew :: "Message list \<Rightarrow> string set \<Rightarrow> Message list \<times> string set" where
  "filterNew [] seen = ([], seen)"
| "filterNew (m # ms) seen =
     (case msgId m of
        None \<Rightarrow> filterNew ms seen
      | Some i \<Rightarrow>
          if i = [] then filterNew ms seen
          else if i \<in> seen then filterNew ms seen
          else (case filterNew ms (insert i seen) of
                  (new, seen') \<Rightarrow> (m # new, seen')))"

text \<open>
  The second half of \<^verbatim>\<open>pollMessages\<close>, on the batch of a successful fetch. The sort is
  in place: the stored list and the list the filter runs over are the same sorted
  array. The result is the list of new messages and the new state; the callback is
  called only when the list is not empty and a subscriber is registered.
\<close>

definition replaceAll ::
  "js_runtime \<Rightarrow> (nat \<Rightarrow> int) \<Rightarrow> ApiMessage list \<Rightarrow> ApiService \<Rightarrow> Message list \<times> ApiService" where
  "replaceAll rt clock batch s =
     (let sorted = arraySort (messagesAscending rt) (convertAll rt clock batch);
          found = filterNew sorted (processedMessageIds s);
          s' = s\<lparr>allMessages := sorted, processedMessageIds := snd found\<rparr>
      in (fst found,
          if fst found \<noteq> [] \<and> onNewMessageCallback s'
          then s'\<lparr>events := events s' @ [NewMessages (fst found)]\<rparr>
          else s'))"

text \<open>The first half of \<^verbatim>\<open>pollMessages\<close>, on a result with a truthy error string.\<close>

definition pollFailed :: "string \<Rightarrow> ApiService \<Rightarrow> ApiService" where
  "pollFailed e s =
     (let s' = (if onErrorCallback s then s\<lparr>events := events s @ [ErrorRaised e]\<rparr> else s)
      in s'\<lparr>retryTimeout := Some (length (timers s')), timers := timers s' @ [60000]\<rparr>)"

definition pollMessages ::
  "js_runtime \<Rightarrow> (nat \<Rightarrow> int) \<Rightarrow> net_outcome \<Rightarrow> ApiService \<Rightarrow> ApiService" where
  "pollMessages rt clock net s =
     (case fetchMessagesFromApi rt net s of
        (result, s') \<Rightarrow>
          (case error result of
             None \<Rightarrow> snd (replaceAll rt clock (data result) s')
           | Some e \<Rightarrow>
               if e \<noteq> [] then pollFailed e s'
               else snd (replaceAll rt clock (data result) s')))"

section \<open>Sending (sendMessage) and reset\<close>

text \<open>The \<^verbatim>\<open>catch\<close> block of \<^verbatim>\<open>sendMessage\<close>: the error string of a thrown value.\<close>

definition sendErrorMessage :: "js_error \<Rightarrow> string" where
  "sendErrorMessage e =
     (case e of
        NonError \<Rightarrow> ''Failed to send message''
      | JsError n m \<Rightarrow>
          if n = ''AbortError''
          then ''Send timeout - n8n endpoint took too long to respond''
          else if str_includes m ''Failed to fetch''
          then ''Cannot connect to n8n endpoint. Please check your internet connection and n8n URL in Settings.''
          else m)"

text \<open>
  The optimistic message of a successful send. The function reads the clock three
  times: \<open>clock 0\<close> for the timestamp of the request, \<open>clock 1\<close> for the timestamp of the
  optimistic message and \<open>clock 2\<close> (\<^verbatim>\<open>Date.now()\<close>) for its identifier.
\<close>

definition optimisticMessage :: "js_runtime \<Rightarrow> (nat \<Rightarrow> int) \<Rightarrow> string \<Rightarrow> string \<Rightarrow> Message" where
  "optimisticMessage rt clock dest txt =
     \<lparr>conversationId = dest,
      timestamp = toISOString rt (clock 1),
      body = txt,
      direction = Outgoing,
      msgId = Some (''temp-'' @ numberString rt (real_of_int (clock 2))),
      status = Some Sent\<rparr>"

definition sendMessage_try ::
  "js_runtime \<Rightarrow> (nat \<Rightarrow> int) \<Rightarrow> net_outcome \<Rightarrow> string \<Rightarrow> string \<Rightarrow> ApiService \<Rightarrow>
   (js_error + bool ApiResponse) \<times> ApiService" where
  "sendMessage_try rt clock net dest txt s =
     (let url = n8nWebhookUrl (settings s) in
      if notConfigured rt url
      then (Inl (JsError ''Error''
                  ''n8n Send Message URL not configured. Please check Settings.''), s)
      else
        (let s1 = s\<lparr>requests := requests s @
                      [PostRequest url dest txt (toISOString rt (clock 0))]\<rparr>
         in case net of
              Rejected e \<Rightarrow> (Inl e, s1)
            | Responded r \<Rightarrow>
                if \<not> responseOk r then (Inl (JsError ''Error'' (httpErrorMessage rt r)), s1)
                else
                  (let m = optimisticMessage rt clock dest txt;
                       s2 = s1\<lparr>allMessages := allMessages s1 @ [m]\<rparr>;
                       s3 = (case msgId m of
                               None \<Rightarrow> s2
                             | Some i \<Rightarrow>
                                 if i \<noteq> []
                                 then s2\<lparr>processedMessageIds :=
                                          insert i (processedMessageIds s2)\<rparr>
                                 else s2)
                   in (Inr \<lparr>data = True, error = None\<rparr>, s3))))"

definition sendMessage ::
  "js_runtime \<Rightarrow> (nat \<Rightarrow> int) \<Rightarrow> net_outcome \<Rightarrow> string \<Rightarrow> string \<Rightarrow> ApiService \<Rightarrow>
   bool ApiResponse \<times> ApiService" where
  "sendMessage rt clock net dest txt s =
     (case sendMessage_try rt clock net dest txt s of
        (Inl e, s') \<Rightarrow> (\<lparr>data = False, error = Some (sendErrorMessage e)\<rparr>, s')
      | (Inr r, s') \<Rightarrow> (r, s'))"

definition resetProcessedMessages :: "ApiService \<Rightarrow> ApiService" where
  "resetProcessedMessages s = s\<lparr>processedMessageIds := {}, allMessages := []\<rparr>"

section \<open>Conversation aggregation (fetchConversations)\<close>

definition isDigit :: "char \<Rightarrow> bool" where
  "isDigit c = (c \<in> set ''0123456789'')"

definition formatPhoneNumber :: "string \<Rightarrow> string" where
  "formatPhoneNumber p =
     (let cleaned = filter isDigit p in
      if length cleaned = 11 \<and> take 1 cleaned = ''1''
      then (let number = drop 1 cleaned
            in ''+1 ('' @ take 3 number @ '') '' @ take 3 (drop 3 number) @ ''-'' @
               drop 6 number)
      else if length cleaned = 10
      then ''('' @ take 3 cleaned @ '') '' @ take 3 (drop 3 cleaned) @ ''-'' @ drop 6 cleaned
      else if length cleaned > 10 then ''+'' @ cleaned
      else p)"

text \<open>
  The \<^verbatim>\<open>Map\<close> from phone to summary keeps the order in which keys were first set; it is
  an association list, and \<^verbatim>\<open>set\<close> on a present key replaces the value in place.
\<close>

fun mapSet :: "(string \<times> 'v) list \<Rightarrow> string \<Rightarrow> 'v \<Rightarrow> (string \<times> 'v) list" where
  "mapSet [] k v = [(k, v)]"
| "mapSet ((k', v') # kvs) k v =
     (if k' = k then (k, v) # kvs else (k', v') # mapSet kvs k v)"

text \<open>The comparison \<^verbatim>\<open>a > b\<close> of two dates: false when one of them is invalid.\<close>

fun dateGreater :: "int option \<Rightarrow> int option \<Rightarrow> bool" where
  "dateGreater (Some x) (Some y) = (y < x)"
| "dateGreater a b = False"

text \<open>
  The callback of \<^verbatim>\<open>forEach\<close> on one message. The logging of the time comparison calls
  \<^verbatim>\<open>toISOString\<close> on both dates before the branch, so a message with an invalid
  timestamp throws. The second branch sets \<^verbatim>\<open>unread\<close> of the summary object that is in
  the map.
\<close>

definition groupStep ::
  "js_runtime \<Rightarrow> Message \<Rightarrow> (string \<times> Contact) list \<Rightarrow> js_error + (string \<times> Contact) list" where
  "groupStep rt message cmap =
     (let key = conversationId message;
          existing = map_of cmap key;
          messageTime = parseDate rt (timestamp message);
          existingTime = (case existing of
                            None \<Rightarrow> Some 0
                          | Some c \<Rightarrow> parseDate rt (contactTimestamp c));
          isNewer = dateGreater messageTime existingTime
      in case dateToISOString rt messageTime of
           Inl e \<Rightarrow> Inl e
         | Inr a \<Rightarrow>
            (case dateToISOString rt existingTime of
               Inl e \<Rightarrow> Inl e
             | Inr b \<Rightarrow>
                 if existing = None \<or> isNewer
                 then Inr (mapSet cmap key
                        \<lparr>phone = key,
                         name = formatPhoneNumber key,
                         lastMessage = body message,
                         contactTimestamp = timestamp message,
                         unread = (direction message = Incoming \<and>
                                   (existing = None \<or> isNewer))\<rparr>)
                 else if existing \<noteq> None \<and> direction message = Incoming \<and> isNewer
                 then Inr (map (\<lambda>(k, c). if k = key then (k, c\<lparr>unread := True\<rparr>) else (k, c))
                             cmap)
                 else Inr cmap))"

fun groupMessages ::
  "js_runtime \<Rightarrow> Message list \<Rightarrow> (string \<times> Contact) list \<Rightarrow> js_error + (string \<times> Contact) list" where
  "groupMessages rt [] cmap = Inr cmap"
| "groupMessages rt (m # ms) cmap =
     (case groupStep rt m cmap of
        Inl e \<Rightarrow> Inl e
      | Inr cmap' \<Rightarrow> groupMessages rt ms cmap')"

definition contactsDescending :: "js_runtime \<Rightarrow> Contact \<Rightarrow> Contact \<Rightarrow> int" where
  "contactsDescending rt a b = timeDifference rt (contactTimestamp b) (contactTimestamp a)"

text \<open>
  \<^verbatim>\<open>fetchConversations\<close>, with the state it leaves. The summary it builds for the log
  after the sort reads the two lists and is left out.
\<close>

definition fetchConversations ::
  "js_runtime \<Rightarrow> ApiService \<Rightarrow> Contact list ApiResponse \<times> ApiService" where
  "fetchConversations rt s =
     (case groupMessages rt (allMessages s) [] of
        Inl e \<Rightarrow>
          (\<lparr>data = [],
            error = Some (case e of JsError n m \<Rightarrow> m | NonError \<Rightarrow> ''Unknown error'')\<rparr>, s)
      | Inr cmap \<Rightarrow>
          (\<lparr>data = arraySort (contactsDescending rt) (map snd cmap), error = None\<rparr>, s))"

section \<open>A sample runtime\<close>

text \<open>
  The instances below run the operations on a fragment of the engine's library: three
  instants, their ISO 8601 strings and their locale strings (read in the time zone UTC),
  \<^verbatim>\<open>trim\<close> on ASCII strings and \<^verbatim>\<open>String\<close> on integers. Outside this fragment
  the sample functions are not those of an engine; the instances stay inside it, and
  the general statements hold for every runtime.
\<close>

definition sampleInstants :: "(int \<times> string) list" where
  "sampleInstants =
     [(1735725600000, ''2025-01-01T10:00:00.000Z''),
      (1735729200000, ''2025-01-01T11:00:00.000Z''),
      (1735732800000, ''2025-01-01T12:00:00.000Z'')]"

definition sampleLocale :: "(string \<times> int) list" where
  "sampleLocale =
     [(''1/1/2025, 10:00:00 AM'', 1735725600000),
      (''1/1/2025, 11:00:00 AM'', 1735729200000),
      (''1/1/2025, 12:00:00 PM'', 1735732800000)]"

text \<open>
  The white space among the ASCII characters is tab, line feed, vertical tab, form feed,
  carriage return and space: on a string of ASCII characters, as the sample URLs are,
  \<^verbatim>\<open>trim\<close> strips exactly these.
\<close>

definition asciiSpace :: "char \<Rightarrow> bool" where
  "asciiSpace c = (c \<in> {CHR 0x09, CHR 0x0A, CHR 0x0B, CHR 0x0C, CHR 0x0D, CHR 0x20})"

definition asciiTrim :: "string \<Rightarrow> string" where
  "asciiTrim s = rev (dropWhile asciiSpace (rev (dropWhile asciiSpace s)))"

text \<open>
  The decimal digits of an integer, with a minus sign below zero: \<^verbatim>\<open>String(x)\<close> of an
  integer \<open>x\<close> of absolute value below \<open>10^21\<close>, as the sample numbers are.
\<close>

definition digitChar :: "nat \<Rightarrow> char" where
  "digitChar d =
     (if d = 0 then CHR ''0'' else if d = 1 then CHR ''1'' else if d = 2 then CHR ''2''
      else if d = 3 then CHR ''3'' else if d = 4 then CHR ''4'' else if d = 5 then CHR ''5''
      else if d = 6 then CHR ''6'' else if d = 7 then CHR ''7'' else if d = 8 then CHR ''8''
      else CHR ''9'')"

fun decimal :: "nat \<Rightarrow> string" where
  "decimal n =
     (if n < 10 then [digitChar n]
      else decimal (n div 10) @ [digitChar (n mod 10)])"

declare decimal.simps [simp del]

definition integerString :: "int \<Rightarrow> string" where
  "integerString i = (if i < 0 then CHR ''-'' # decimal (nat (- i)) else decimal (nat i))"

definition sampleRuntime :: js_runtime where
  "sampleRuntime =
     \<lparr>parseDate = map_of (sampleLocale @ map (\<lambda>(t, s). (s, t)) sampleInstants),
      toISOString = (\<lambda>t. case map_of sampleInstants t of Some s \<Rightarrow> s | None \<Rightarrow> []),
      trimString = asciiTrim,
      numberString = (\<lambda>x. integerString \<lfloor>x\<rfloor>),
      invalidTimeMessage = ''Invalid time value'',
      nullReadMessage = ''Cannot read properties of null (reading 'id')''\<rparr>"

text \<open>A clock that stands at noon of the first sample day.\<close>

definition sampleClock :: "nat \<Rightarrow> int" where
  "sampleClock i = 1735732800000"

definition sampleSettings :: service_settings where
  "sampleSettings =
     \<lparr>n8nWebhookUrl = ''https://cloud.automationhoster.org/webhook/send-sms'',
      n8nGetMessagesUrl = ''https://cloud.automationhoster.org/webhook/get-messages'',
      pollingInterval = 30\<rparr>"

text \<open>Raw messages: an incoming one, an outgoing one with a numeric phone number, a second
  raw message with the identifier of the first and a later timestamp, and one of another
  conversation.\<close>

definition sampleInbound :: ApiMessage where
  "sampleInbound =
     \<lparr>apiId = ''a'', phoneNumber = PhoneString ''555'', apiDirection = INBOUND,
      apiLastMessage = ''hi'', lastMessageHK = ''1/1/2025, 10:00:00 AM'',
      lastMessageSL = ''1/1/2025, 7:30:00 AM''\<rparr>"

definition sampleOutbound :: ApiMessage where
  "sampleOutbound =
     \<lparr>apiId = ''b'', phoneNumber = PhoneNumber 555, apiDirection = OUTBOUND,
      apiLastMessage = ''hello'', lastMessageHK = ''1/1/2025, 11:00:00 AM'',
      lastMessageSL = ''1/1/2025, 8:30:00 AM''\<rparr>"

definition sampleRepeat :: ApiMessage where
  "sampleRepeat =
     \<lparr>apiId = ''a'', phoneNumber = PhoneString ''555'', apiDirection = INBOUND,
      apiLastMessage = ''hi again'', lastMessageHK = ''1/1/2025, 11:00:00 AM'',
      lastMessageSL = ''1/1/2025, 8:30:00 AM''\<rparr>"

definition sampleOther :: ApiMessage where
  "sampleOther =
     \<lparr>apiId = ''c'', phoneNumber = PhoneString ''777'', apiDirection = INBOUND,
      apiLastMessage = ''ping'', lastMessageHK = ''1/1/2025, 12:00:00 PM'',
      lastMessageSL = ''1/1/2025, 9:30:00 AM''\<rparr>"

text \<open>The JSON object of a raw message, and a response with status 200 and a given body.\<close>

definition toJson :: "ApiMessage \<Rightarrow> json" where
  "toJson r =
     JObject
       [(''id'', JString (apiId r)),
        (''phoneNumber'',
           (case phoneNumber r of PhoneNumber n \<Rightarrow> JNumber n | PhoneString p \<Rightarrow> JString p)),
        (''direction'',
           JString (case apiDirection r of INBOUND \<Rightarrow> ''INBOUND'' | OUTBOUND \<Rightarrow> ''OUTBOUND'')),
        (''lastMessage'', JString (apiLastMessage r)),
        (''lastMessageHK'', JString (lastMessageHK r)),
        (''lastMessageSL'', JString (lastMessageSL r))]"

definition okResponse :: "json \<Rightarrow> net_outcome" where
  "okResponse j =
     Responded \<lparr>httpStatus = 200, statusText = ''OK'', responseText = Some [],
                responseJson = Inr j\<rparr>"

text \<open>A service with both subscribers registered, and the same with a blank read
  endpoint.\<close>

definition sampleService :: ApiService where
  "sampleService = setErrorCallback (setNewMessageCallback (newApiService sampleSettings))"

definition blankService :: ApiService where
  "blankService =
     setErrorCallback (setNewMessageCallback
       (newApiService (sampleSettings\<lparr>n8nGetMessagesUrl := []\<rparr>)))"

text \<open>The store after the merge of three raw messages of two conversations.\<close>

definition sampleStore :: ApiService where
  "sampleStore =
     snd (replaceAll sampleRuntime sampleClock [sampleOutbound, sampleInbound, sampleOther]
            sampleService)"

text \<open>The store after the merge of an incoming and an outgoing raw message of one
  conversation that carry the same timestamp.\<close>

definition tieStore :: ApiService where
  "tieStore =
     snd (replaceAll sampleRuntime sampleClock [sampleRepeat, sampleOutbound] sampleService)"

section \<open>Notions used in the statements\<close>

text \<open>The identifiers of a list of messages that count for deduplication: the defined,
  non-empty ones.\<close>

definition identifiers :: "Message list \<Rightarrow> string set" where
  "identifiers ms = Option.these (set (map msgId ms)) - {[]}"

text \<open>The consistency of the message list with the set of processed identifiers: every
  stored message with a non-empty identifier has it in the set.\<close>

definition storeConsistent :: "ApiService \<Rightarrow> bool" where
  "storeConsistent s = (identifiers (allMessages s) \<subseteq> processedMessageIds s)"

text \<open>
  A summary represents a group of the message list: its fields are those of the first
  message of the group, in the order of the list, whose instant is valid and is the
  maximum of the group (the messages of the group before it are older). A map of
  summaries summarises a message list when it has one entry for each conversation key
  of the list, and that entry represents its group.
\<close>

definition represents :: "js_runtime \<Rightarrow> Message list \<Rightarrow> string \<Rightarrow> Contact \<Rightarrow> bool" where
  "represents rt ms k c =
     (phone c = k \<and>
      (\<exists>i < length ms. conversationId (ms ! i) = k \<and>
         contactTimestamp c = timestamp (ms ! i) \<and> lastMessage c = body (ms ! i) \<and>
         unread c = (direction (ms ! i) = Incoming) \<and>
         (\<exists>t. parseDate rt (timestamp (ms ! i)) = Some t \<and>
            (\<forall>j < length ms. conversationId (ms ! j) = k \<longrightarrow>
               (\<exists>t'. parseDate rt (timestamp (ms ! j)) = Some t' \<and> t' \<le> t \<and>
                     (j < i \<longrightarrow> t' < t))))))"

definition summarises :: "js_runtime \<Rightarrow> Message list \<Rightarrow> (string \<times> Contact) list \<Rightarrow> bool" where
  "summarises rt ms cmap =
     (distinct (map fst cmap) \<and>
      (\<forall>k. case map_of cmap k of
             None \<Rightarrow> k \<notin> conversationId ` set ms
           | Some c \<Rightarrow> represents rt ms k c))"

text \<open>The order of the stored message list: both instants are valid and the first is
  not later than the second.\<close>

definition olderOrEqual :: "js_runtime \<Rightarrow> Message \<Rightarrow> Message \<Rightarrow> bool" where
  "olderOrEqual rt a b =
     (case parseDate rt (timestamp a) of
        None \<Rightarrow> False
      | Some x \<Rightarrow> (case parseDate rt (timestamp b) of
                     None \<Rightarrow> False
                   | Some y \<Rightarrow> x \<le> y))"

definition oldestFirst :: "js_runtime \<Rightarrow> Message list \<Rightarrow> bool" where
  "oldestFirst rt ms = sorted_wrt (olderOrEqual rt) ms"

text \<open>The order of the conversation list: both instants are valid and the first is not
  older than the second.\<close>

definition newerOrEqual :: "js_runtime \<Rightarrow> Contact \<Rightarrow> Contact \<Rightarrow> bool" where
  "newerOrEqual rt a b =
     (case parseDate rt (contactTimestamp a) of
        None \<Rightarrow> False
      | Some x \<Rightarrow> (case parseDate rt (contactTimestamp b) of
                     None \<Rightarrow> False
                   | Some y \<Rightarrow> y \<le> x))"

definition newestFirst :: "js_runtime \<Rightarrow> Contact list \<Rightarrow> bool" where
  "newestFirst rt cs = sorted_wrt (newerOrEqual rt) cs"


section \<open>Unfolding the model on concrete inputs\<close>

lemmas sample_defs =
  sampleInbound_def sampleOutbound_def sampleRepeat_def sampleOther_def sampleRuntime_def
  sampleClock_def sampleSettings_def sampleInstants_def sampleLocale_def sampleService_def
  blankService_def okResponse_def toJson_def newApiService_def setErrorCallback_def
  setNewMessageCallback_def

lemmas eval_defs =
  replaceAll_def convertAll_def convertApiMessage_def convertTimestamp_def
  convertTimestamp_try_def dateToISOString_def arraySort_def messagesAscending_def
  timeDifference_def integerString_def decimal.simps digitChar_def Let_def
  enumerate_eq_zip

section \<open>Properties of the timestamp normalizer\<close>

lemma convertTimestamp_try_Inr:
  "convertTimestamp_try rt now ts =
     Inr (toISOString rt (case parseDate rt ts of Some t \<Rightarrow> t | None \<Rightarrow> now))"
  by (cases "parseDate rt ts") (simp_all add: convertTimestamp_try_def dateToISOString_def)

text \<open>
  Claim C6. For every input string the normalizer returns a value and its \<^verbatim>\<open>try\<close> block
  never raises (\<^verbatim>\<open>toISOString\<close> is only called on a date that was tested valid, or on
  the clock reading): when the native parse of the string is a valid instant the result
  is the ISO 8601 string of that instant, and for every string that does not parse the
  result is the ISO 8601 string of the current time.
\<close>

theorem convertTimestamp_total:
  "(\<exists>s. convertTimestamp_try rt now ts = Inr s) \<and>
   convertTimestamp rt now ts =
     (case parseDate rt ts of
        Some t \<Rightarrow> toISOString rt t
      | None \<Rightarrow> toISOString rt now)"
  by (cases "parseDate rt ts") (simp_all add: convertTimestamp_def convertTimestamp_try_Inr)

section \<open>Sorting, conversion and the filter of new messages\<close>

lemma mset_insertSorted: "mset (insertSorted cmp x xs) = add_mset x (mset xs)"
  by (induction xs) simp_all

lemma set_insertSorted: "set (insertSorted cmp x xs) = insert x (set xs)"
  using mset_insertSorted [of cmp x xs] by (metis set_mset_add_mset_insert set_mset_mset)

lemma mset_arraySort: "mset (arraySort cmp xs) = mset xs"
  by (induction xs) (simp_all add: arraySort_def mset_insertSorted)

lemma set_arraySort: "set (arraySort cmp xs) = set xs"
  using mset_arraySort [of cmp xs] by (metis set_mset_mset)

lemma length_arraySort: "length (arraySort cmp xs) = length xs"
  using mset_arraySort [of cmp xs] by (metis size_mset)

lemma map_arraySort_mset: "mset (map f (arraySort cmp xs)) = mset (map f xs)"
  by (simp add: mset_arraySort)

lemma distinct_map_arraySort: "distinct (map f (arraySort cmp xs)) = distinct (map f xs)"
  using map_arraySort_mset [of f cmp xs] by (rule mset_eq_imp_distinct_iff)

lemma msgId_convertApiMessage: "msgId (convertApiMessage rt now r) = Some (apiId r)"
  by (simp add: convertApiMessage_def Let_def)

lemma map_msgId_convertAll_aux:
  "map (\<lambda>(i, m). msgId (convertApiMessage rt (clock i) m)) (enumerate n batch) = map (\<lambda>r. Some (apiId r)) batch"
  by (induction batch arbitrary: n) (simp_all add: msgId_convertApiMessage)

lemma map_msgId_convertAll: "map msgId (convertAll rt clock batch) = map (\<lambda>r. Some (apiId r)) batch"
  using map_msgId_convertAll_aux [of rt clock 0 batch]
  by (simp add: convertAll_def comp_def case_prod_unfold)

lemma length_convertAll: "length (convertAll rt clock batch) = length batch"
  by (simp add: convertAll_def)

lemma identifiers_Cons: "identifiers (m # ms) = (case msgId m of None \<Rightarrow> {} | Some i \<Rightarrow> if i = [] then {} else {i}) \<union> identifiers ms"
  by (auto simp: identifiers_def in_these_eq split: option.splits)

lemma identifiers_Nil: "identifiers [] = {}"
  by (simp add: identifiers_def)

lemma filterNew_seen: "snd (filterNew ms seen) = seen \<union> identifiers ms"
  by (induction ms seen rule: filterNew.induct)
     (auto simp: identifiers_Cons identifiers_Nil split: option.splits prod.splits)

lemma filterNew_sound:
  "m \<in> set (fst (filterNew ms seen)) \<Longrightarrow>
   m \<in> set ms \<and> (\<exists>i. msgId m = Some i \<and> i \<noteq> [] \<and> i \<notin> seen)"
  by (induction ms seen rule: filterNew.induct)
     (auto split: option.splits prod.splits if_splits)

lemma filterNew_complete:
  "i \<in> identifiers ms \<Longrightarrow> i \<notin> seen \<Longrightarrow> \<exists>m \<in> set (fst (filterNew ms seen)). msgId m = Some i"
proof (induction ms seen rule: filterNew.induct)
  case (1 seen)
  then show ?case by (simp add: identifiers_Nil)
next
  case (2 m ms seen)
  show ?case
  proof (cases "msgId m")
    case None
    with 2 show ?thesis by (simp add: identifiers_Cons)
  next
    case (Some i0)
    show ?thesis
    proof (cases "i0 = []")
      case True
      with 2 Some show ?thesis by (simp add: identifiers_Cons)
    next
      case False
      show ?thesis
      proof (cases "i0 \<in> seen")
        case True
        with "2.prems" have "i \<in> identifiers ms"
          using Some False by (auto simp: identifiers_Cons)
        with "2.IH"(3) [OF Some False True] "2.prems"(2) Some False True show ?thesis by simp
      next
        case notseen: False
        show ?thesis
        proof (cases "i = i0")
          case True
          with Some False notseen show ?thesis by (simp split: prod.splits)
        next
          case ne: False
          with "2.prems" have "i \<in> identifiers ms" "i \<notin> insert i0 seen"
            using Some False by (auto simp: identifiers_Cons)
          with "2.IH"(4) [OF Some False notseen] Some False notseen show ?thesis
            by (auto split: prod.splits)
        qed
      qed
    qed
  qed
qed

lemma filterNew_ids: "msgId ` set (fst (filterNew ms seen)) = Some ` (identifiers ms - seen)"
proof (intro equalityI subsetI)
  fix x assume "x \<in> msgId ` set (fst (filterNew ms seen))"
  then obtain m where m: "m \<in> set (fst (filterNew ms seen))" "x = msgId m" by auto
  from filterNew_sound [OF m(1)] obtain i where "m \<in> set ms" "msgId m = Some i" "i \<noteq> []" "i \<notin> seen"
    by auto
  then show "x \<in> Some ` (identifiers ms - seen)"
    using m(2) by (force simp: identifiers_def in_these_eq)
next
  fix x assume "x \<in> Some ` (identifiers ms - seen)"
  then obtain i where "x = Some i" "i \<in> identifiers ms" "i \<notin> seen" by auto
  with filterNew_complete [of i ms seen] show "x \<in> msgId ` set (fst (filterNew ms seen))"
    by force
qed

lemma filterNew_distinct: "distinct (map msgId (fst (filterNew ms seen)))"
proof (induction ms seen rule: filterNew.induct)
  case (1 seen)
  show ?case by simp
next
  case (2 m ms seen)
  show ?case
  proof (cases "msgId m")
    case None
    with 2 show ?thesis by simp
  next
    case (Some i)
    show ?thesis
    proof (cases "i = [] \<or> i \<in> seen")
      case True
      with 2 Some show ?thesis by auto
    next
      case False
      have "Some i \<notin> msgId ` set (fst (filterNew ms (insert i seen)))"
        using filterNew_sound [of _ ms "insert i seen"] by force
      with 2 Some False show ?thesis
        by (auto split: prod.splits)
    qed
  qed
qed

lemma filterNew_all_seen:
  "identifiers ms \<subseteq> seen \<Longrightarrow> fst (filterNew ms seen) = []"
  by (induction ms seen rule: filterNew.induct)
     (auto simp: identifiers_Cons split: option.splits prod.splits if_splits)

lemma filterNew_filter:
  "distinct (map msgId ms) \<Longrightarrow> \<forall>m \<in> set ms. \<exists>i. msgId m = Some i \<and> i \<noteq> [] \<Longrightarrow>
   fst (filterNew ms seen) = filter (\<lambda>m. msgId m \<notin> Some ` seen) ms"
proof (induction ms seen rule: filterNew.induct)
  case (1 seen)
  show ?case by simp
next
  case (2 m ms seen)
  from "2.prems" obtain i where i: "msgId m = Some i" "i \<noteq> []" by auto
  have notin: "Some i \<notin> msgId ` set ms" using "2.prems"(1) i by auto
  have same: "filter (\<lambda>m. msgId m \<notin> Some ` insert i seen) ms = filter (\<lambda>m. msgId m \<notin> Some ` seen) ms"
  proof (rule filter_cong [OF refl])
    fix x assume "x \<in> set ms"
    with notin have "msgId x \<noteq> Some i" by force
    then show "(msgId x \<notin> Some ` insert i seen) = (msgId x \<notin> Some ` seen)" by auto
  qed
  show ?case
  proof (cases "i \<in> seen")
    case True
    with 2 i show ?thesis by auto
  next
    case False
    with "2.IH"(4) [OF i(1) i(2) False] "2.prems" i same show ?thesis
      by (auto split: prod.splits)
  qed
qed

lemma filterNew_first:
  "k < length ms \<Longrightarrow> msgId (ms ! k) = Some i \<Longrightarrow> i \<noteq> [] \<Longrightarrow> i \<notin> seen \<Longrightarrow>
   \<forall>j < k. msgId (ms ! j) \<noteq> Some i \<Longrightarrow> ms ! k \<in> set (fst (filterNew ms seen))"
proof (induction ms seen arbitrary: k rule: filterNew.induct)
  case (1 seen)
  then show ?case by simp
next
  case (2 m ms seen)
  show ?case
  proof (cases k)
    case 0
    with "2.prems" show ?thesis by (auto split: prod.splits)
  next
    case (Suc k')
    have head: "msgId m \<noteq> Some i" using "2.prems"(5) Suc by force
    have rest: "k' < length ms" "msgId (ms ! k') = Some i" "\<forall>j < k'. msgId (ms ! j) \<noteq> Some i"
      using "2.prems" Suc by auto
    show ?thesis
    proof (cases "msgId m")
      case None
      with "2.IH"(1) [OF None rest(1,2) "2.prems"(3,4) rest(3)] Suc show ?thesis by simp
    next
      case (Some i0)
      with head have ne: "i0 \<noteq> i" by simp
      show ?thesis
      proof (cases "i0 = []")
        case True
        with "2.IH"(2) [OF Some True rest(1,2) "2.prems"(3,4) rest(3)] Some Suc show ?thesis by simp
      next
        case False
        show ?thesis
        proof (cases "i0 \<in> seen")
          case True
          with "2.IH"(3) [OF Some False True rest(1,2) "2.prems"(3,4) rest(3)] Some False Suc
          show ?thesis by simp
        next
          case notseen: False
          have "i \<notin> insert i0 seen" using ne "2.prems"(4) by simp
          with "2.IH"(4) [OF Some False notseen rest(1,2) "2.prems"(3) _ rest(3)] Some False notseen Suc
          show ?thesis by (auto split: prod.splits)
        qed
      qed
    qed
  qed
qed


section \<open>The merge of a fetched batch\<close>

lemma identifiers_sorted_converted:
  "identifiers (arraySort cmp (convertAll rt clock batch)) = set (map apiId batch) - {[]}"
proof -
  have "set (map msgId (arraySort cmp (convertAll rt clock batch))) = set (map msgId (convertAll rt clock batch))"
    by (simp add: set_arraySort)
  also have "\<dots> = Some ` set (map apiId batch)"
    by (simp add: map_msgId_convertAll image_image)
  finally show ?thesis
    by (simp add: identifiers_def these_image_Some_eq)
qed

lemma replaceAll_fst:
  "fst (replaceAll rt clock batch s) =
     fst (filterNew (arraySort (messagesAscending rt) (convertAll rt clock batch))
            (processedMessageIds s))"
  by (simp add: replaceAll_def Let_def)

lemma replaceAll_allMessages:
  "allMessages (snd (replaceAll rt clock batch s)) =
     arraySort (messagesAscending rt) (convertAll rt clock batch)"
  by (simp add: replaceAll_def Let_def)

lemma replaceAll_processed:
  "processedMessageIds (snd (replaceAll rt clock batch s)) =
     processedMessageIds s \<union> (set (map apiId batch) - {[]})"
  by (simp add: replaceAll_def Let_def filterNew_seen identifiers_sorted_converted)

lemma sorted_converted_ids:
  "m \<in> set (arraySort cmp (convertAll rt clock batch)) \<Longrightarrow> \<exists>r \<in> set batch. msgId m = Some (apiId r)"
proof -
  assume "m \<in> set (arraySort cmp (convertAll rt clock batch))"
  then have "msgId m \<in> set (map msgId (convertAll rt clock batch))"
    by (simp add: set_arraySort)
  then show ?thesis by (auto simp: map_msgId_convertAll)
qed

lemma distinct_map_Some: "distinct (map Some xs) = distinct xs"
  by (induction xs) auto

lemma distinct_sorted_converted:
  "distinct (map msgId (arraySort cmp (convertAll rt clock batch))) = distinct (map apiId batch)"
proof -
  have "map (\<lambda>r. Some (apiId r)) batch = map Some (map apiId batch)" by simp
  then show ?thesis
    by (simp only: distinct_map_arraySort map_msgId_convertAll distinct_map_Some)
qed

lemma first_call:
  assumes "distinct (map apiId batch)" "[] \<notin> set (map apiId batch)"
     "set (map apiId batch) \<inter> processedMessageIds s = {}"
  shows "fst (replaceAll rt clock batch s) = allMessages (snd (replaceAll rt clock batch s))"
proof -
  let ?sorted = "arraySort (messagesAscending rt) (convertAll rt clock batch)"
  have d: "distinct (map msgId ?sorted)"
    using assms(1) by (simp only: distinct_sorted_converted)
  have ne: "\<forall>m \<in> set ?sorted. \<exists>i. msgId m = Some i \<and> i \<noteq> []"
    using sorted_converted_ids [of _ "messagesAscending rt" rt clock batch] assms(2) by force
  have "filter (\<lambda>m. msgId m \<notin> Some ` processedMessageIds s) ?sorted = ?sorted"
  proof (rule filter_True, rule ballI)
    fix m assume "m \<in> set ?sorted"
    from sorted_converted_ids [OF this] obtain r where "r \<in> set batch" "msgId m = Some (apiId r)" by auto
    with assms(3) show "msgId m \<notin> Some ` processedMessageIds s" by auto
  qed
  with filterNew_filter [OF d ne, of "processedMessageIds s"] show ?thesis
    by (simp add: replaceAll_fst replaceAll_allMessages)
qed

lemma repeated_call:
  "fst (replaceAll rt clock2 batch (snd (replaceAll rt clock batch s))) = []"
  unfolding replaceAll_fst
  by (rule filterNew_all_seen) (simp add: replaceAll_processed identifiers_sorted_converted)

lemma second_call_ids:
  "msgId ` set (fst (replaceAll rt clock2 batch2 (snd (replaceAll rt clock batch s)))) =
     Some ` (set (map apiId batch2) - {[]} - (set (map apiId batch) \<union> processedMessageIds s))"
  unfolding replaceAll_fst filterNew_ids
  by (auto simp: replaceAll_processed identifiers_sorted_converted)

lemma second_call_filter:
  assumes "distinct (map apiId batch2)" "[] \<notin> set (map apiId batch2)"
  shows "fst (replaceAll rt clock2 batch2 (snd (replaceAll rt clock batch s))) =
     filter (\<lambda>m. msgId m \<notin> Some ` (set (map apiId batch) \<union> processedMessageIds s))
       (allMessages (snd (replaceAll rt clock2 batch2 (snd (replaceAll rt clock batch s)))))"
proof -
  let ?sorted = "arraySort (messagesAscending rt) (convertAll rt clock2 batch2)"
  let ?seen = "processedMessageIds (snd (replaceAll rt clock batch s))"
  have d: "distinct (map msgId ?sorted)"
    using assms(1) by (simp only: distinct_sorted_converted)
  have ne: "\<forall>m \<in> set ?sorted. \<exists>i. msgId m = Some i \<and> i \<noteq> []"
    using sorted_converted_ids [of _ "messagesAscending rt" rt clock2 batch2] assms(2) by force
  have "filter (\<lambda>m. msgId m \<notin> Some ` ?seen) ?sorted =
        filter (\<lambda>m. msgId m \<notin> Some ` (set (map apiId batch) \<union> processedMessageIds s)) ?sorted"
  proof (rule filter_cong [OF refl])
    fix m assume "m \<in> set ?sorted"
    with ne obtain i where "msgId m = Some i" "i \<noteq> []" by auto
    then show "(msgId m \<notin> Some ` ?seen) =
       (msgId m \<notin> Some ` (set (map apiId batch) \<union> processedMessageIds s))"
      by (auto simp: replaceAll_processed)
  qed
  with filterNew_filter [OF d ne, of ?seen] show ?thesis
    by (simp add: replaceAll_fst replaceAll_allMessages)
qed

text \<open>
  Claim C1. After \<^verbatim>\<open>replaceAll\<close> (the merge of \<^verbatim>\<open>pollMessages\<close> on a fetched batch) the
  store holds exactly the converted messages of the batch, as many as the batch has.
  When the identifiers of the batch are pairwise distinct, non-empty and not yet
  processed (as on the first call), the increment is the whole stored list, of the
  length of the batch. On an immediately repeated call with the same batch the increment
  is empty. For a second call with another batch, the identifiers of the increment are
  exactly the non-empty identifiers of the second batch that are neither in the first
  batch nor processed before, and when the second batch has distinct non-empty
  identifiers the increment consists of exactly the stored messages with such an
  identifier. A message in an increment always has a non-empty identifier, while
  every message of the batch is stored.
\<close>

theorem replaceAll_increment:
  "mset (allMessages (snd (replaceAll rt clock batch s))) = mset (convertAll rt clock batch) \<and>
   length (allMessages (snd (replaceAll rt clock batch s))) = length batch \<and>
   (distinct (map apiId batch) \<and> [] \<notin> set (map apiId batch) \<and>
    set (map apiId batch) \<inter> processedMessageIds s = {} \<longrightarrow>
      fst (replaceAll rt clock batch s) = allMessages (snd (replaceAll rt clock batch s)) \<and>
      length (fst (replaceAll rt clock batch s)) = length batch) \<and>
   fst (replaceAll rt clock2 batch (snd (replaceAll rt clock batch s))) = [] \<and>
   msgId ` set (fst (replaceAll rt clock2 batch2 (snd (replaceAll rt clock batch s)))) =
     Some ` (set (map apiId batch2) - {[]} - (set (map apiId batch) \<union> processedMessageIds s)) \<and>
   (distinct (map apiId batch2) \<and> [] \<notin> set (map apiId batch2) \<longrightarrow>
      fst (replaceAll rt clock2 batch2 (snd (replaceAll rt clock batch s))) =
        filter (\<lambda>m. msgId m \<notin> Some ` (set (map apiId batch) \<union> processedMessageIds s))
          (allMessages (snd (replaceAll rt clock2 batch2 (snd (replaceAll rt clock batch s)))))) \<and>
   (\<forall>m \<in> set (fst (replaceAll rt clock batch s)). msgId m \<noteq> None \<and> msgId m \<noteq> Some [])"
proof (intro conjI impI ballI)
  show "mset (allMessages (snd (replaceAll rt clock batch s))) = mset (convertAll rt clock batch)"
    by (simp add: replaceAll_allMessages mset_arraySort)
  show len: "length (allMessages (snd (replaceAll rt clock batch s))) = length batch"
    by (simp add: replaceAll_allMessages length_arraySort length_convertAll)
  show "fst (replaceAll rt clock2 batch (snd (replaceAll rt clock batch s))) = []"
    by (rule repeated_call)
  show "msgId ` set (fst (replaceAll rt clock2 batch2 (snd (replaceAll rt clock batch s)))) =
     Some ` (set (map apiId batch2) - {[]} - (set (map apiId batch) \<union> processedMessageIds s))"
    by (rule second_call_ids)
  {
    assume a: "distinct (map apiId batch) \<and> [] \<notin> set (map apiId batch) \<and>
      set (map apiId batch) \<inter> processedMessageIds s = {}"
    then show first: "fst (replaceAll rt clock batch s) = allMessages (snd (replaceAll rt clock batch s))"
      using first_call by blast
    show "length (fst (replaceAll rt clock batch s)) = length batch"
      using first len by simp
  }
  {
    assume "distinct (map apiId batch2) \<and> [] \<notin> set (map apiId batch2)"
    then show "fst (replaceAll rt clock2 batch2 (snd (replaceAll rt clock batch s))) =
        filter (\<lambda>m. msgId m \<notin> Some ` (set (map apiId batch) \<union> processedMessageIds s))
          (allMessages (snd (replaceAll rt clock2 batch2 (snd (replaceAll rt clock batch s)))))"
      using second_call_filter by blast
  }
  {
    fix m assume "m \<in> set (fst (replaceAll rt clock batch s))"
    then show "msgId m \<noteq> None" "msgId m \<noteq> Some []"
      using filterNew_sound [of m _ "processedMessageIds s"] by (auto simp: replaceAll_fst)
  }
qed


theorem replaceAll_increment_witness:
  "distinct (map apiId [sampleOutbound, sampleInbound]) \<and>
   [] \<notin> set (map apiId [sampleOutbound, sampleInbound]) \<and>
   set (map apiId [sampleOutbound, sampleInbound]) \<inter> processedMessageIds sampleService = {} \<and>
   fst (replaceAll sampleRuntime sampleClock [sampleOutbound, sampleInbound] sampleService) =
     allMessages (snd (replaceAll sampleRuntime sampleClock [sampleOutbound, sampleInbound]
                         sampleService)) \<and>
   length (fst (replaceAll sampleRuntime sampleClock [sampleOutbound, sampleInbound]
                  sampleService)) = 2 \<and>
   fst (replaceAll sampleRuntime sampleClock [sampleOutbound, sampleInbound]
          (snd (replaceAll sampleRuntime sampleClock [sampleOutbound, sampleInbound]
                  sampleService))) = [] \<and>
   distinct (map apiId [sampleInbound, sampleOther]) \<and>
   [] \<notin> set (map apiId [sampleInbound, sampleOther]) \<and>
   msgId ` set (fst (replaceAll sampleRuntime sampleClock [sampleInbound, sampleOther]
          (snd (replaceAll sampleRuntime sampleClock [sampleOutbound, sampleInbound]
                  sampleService)))) = {Some ''c''}"
proof -
  note T = replaceAll_increment [of sampleRuntime sampleClock "[sampleOutbound, sampleInbound]"
      sampleService sampleClock "[sampleInbound, sampleOther]"]
  have h: "distinct (map apiId [sampleOutbound, sampleInbound]) \<and>
    [] \<notin> set (map apiId [sampleOutbound, sampleInbound]) \<and>
    set (map apiId [sampleOutbound, sampleInbound]) \<inter> processedMessageIds sampleService = {}"
    by (simp add: sample_defs)
  have h2: "distinct (map apiId [sampleInbound, sampleOther]) \<and>
    [] \<notin> set (map apiId [sampleInbound, sampleOther])"
    by (simp add: sample_defs)
  have ids: "Some ` (set (map apiId [sampleInbound, sampleOther]) - {[]} -
      (set (map apiId [sampleOutbound, sampleInbound]) \<union> processedMessageIds sampleService)) = {Some ''c''}"
    by (auto simp add: sample_defs)
  from T h have first:
    "fst (replaceAll sampleRuntime sampleClock [sampleOutbound, sampleInbound] sampleService) =
     allMessages (snd (replaceAll sampleRuntime sampleClock [sampleOutbound, sampleInbound]
                         sampleService)) \<and>
     length (fst (replaceAll sampleRuntime sampleClock [sampleOutbound, sampleInbound]
                  sampleService)) = length [sampleOutbound, sampleInbound]"
    by blast
  from T have rep:
    "fst (replaceAll sampleRuntime sampleClock [sampleOutbound, sampleInbound]
          (snd (replaceAll sampleRuntime sampleClock [sampleOutbound, sampleInbound]
                  sampleService))) = []"
    by blast
  from T have "msgId ` set (fst (replaceAll sampleRuntime sampleClock [sampleInbound, sampleOther]
          (snd (replaceAll sampleRuntime sampleClock [sampleOutbound, sampleInbound]
                  sampleService)))) =
      Some ` (set (map apiId [sampleInbound, sampleOther]) - {[]} -
      (set (map apiId [sampleOutbound, sampleInbound]) \<union> processedMessageIds sampleService))"
    by blast
  with ids have sec: "msgId ` set (fst (replaceAll sampleRuntime sampleClock [sampleInbound, sampleOther]
          (snd (replaceAll sampleRuntime sampleClock [sampleOutbound, sampleInbound]
                  sampleService)))) = {Some ''c''}"
    by (simp only:)
  from first have len: "length (fst (replaceAll sampleRuntime sampleClock [sampleOutbound, sampleInbound]
                  sampleService)) = 2"
    by (elim conjE) simp
  from h h2 first len rep sec show ?thesis by blast
qed


section \<open>Fetching and polling\<close>

lemma fetch_state:
  "snd (fetchMessagesFromApi rt net s) =
     (if notConfigured rt (n8nGetMessagesUrl (settings s)) then s
      else s\<lparr>requests := requests s @ [GetRequest (n8nGetMessagesUrl (settings s))]\<rparr>)"
  by (simp add: fetchMessagesFromApi_def fetchMessages_try_def Let_def split: sum.splits prod.splits)

lemma fetch_frame:
  "allMessages (snd (fetchMessagesFromApi rt net s)) = allMessages s"
  "processedMessageIds (snd (fetchMessagesFromApi rt net s)) = processedMessageIds s"
  "timers (snd (fetchMessagesFromApi rt net s)) = timers s"
  "events (snd (fetchMessagesFromApi rt net s)) = events s"
  "onErrorCallback (snd (fetchMessagesFromApi rt net s)) = onErrorCallback s"
  by (simp_all add: fetch_state)

lemma config_message_kept:
  "fetchErrorMessage (JsError ''Error'' ''n8n Get Messages URL not configured. Please check Settings.'') =
     ''n8n Get Messages URL not configured. Please check Settings.''"
  by (simp add: fetchErrorMessage_def)

lemma fetch_not_configured:
  "notConfigured rt (n8nGetMessagesUrl (settings s)) \<Longrightarrow>
   fetchMessagesFromApi rt net s =
     (\<lparr>data = [], error = Some ''n8n Get Messages URL not configured. Please check Settings.''\<rparr>, s)"
  by (simp add: fetchMessagesFromApi_def fetchMessages_try_def Let_def config_message_kept)

lemma pollMessages_failed:
  "truthy (error (fst (fetchMessagesFromApi rt net s))) \<Longrightarrow>
   pollMessages rt clock net s =
     pollFailed (the (error (fst (fetchMessagesFromApi rt net s)))) (snd (fetchMessagesFromApi rt net s))"
  by (auto simp: pollMessages_def truthy_def split: prod.splits option.splits)

lemma pollMessages_merged:
  "\<not> truthy (error (fst (fetchMessagesFromApi rt net s))) \<Longrightarrow>
   pollMessages rt clock net s =
     snd (replaceAll rt clock (data (fst (fetchMessagesFromApi rt net s)))
            (snd (fetchMessagesFromApi rt net s)))"
  by (auto simp: pollMessages_def truthy_def split: prod.splits option.splits)

lemma pollFailed_fields:
  "allMessages (pollFailed e s) = allMessages s"
  "processedMessageIds (pollFailed e s) = processedMessageIds s"
  "requests (pollFailed e s) = requests s"
  "timers (pollFailed e s) = timers s @ [60000]"
  "retryTimeout (pollFailed e s) = Some (length (timers s))"
  "events (pollFailed e s) = events s @ (if onErrorCallback s then [ErrorRaised e] else [])"
  by (simp_all add: pollFailed_def Let_def)

text \<open>
  Claim C2, as amended. When the read endpoint is unset or blank, the fetch fails with
  the configuration error synchronously, before any request is sent (the request is
  its first suspension point, and the state is as before), the poll sends no request
  and raises the error once (to the subscriber, when one is registered), and it starts
  the 60-second retry timer for this failure as for every other one: whenever the
  fetch result carries a non-empty error string, the poll starts that timer.
\<close>

theorem poll_not_configured:
  "(notConfigured rt (n8nGetMessagesUrl (settings s)) \<longrightarrow>
      fetchMessagesFromApi rt net s =
        (\<lparr>data = [], error = Some ''n8n Get Messages URL not configured. Please check Settings.''\<rparr>, s) \<and>
      requests (pollMessages rt clock net s) = requests s \<and>
      events (pollMessages rt clock net s) =
        events s @ (if onErrorCallback s
                    then [ErrorRaised ''n8n Get Messages URL not configured. Please check Settings.'']
                    else []) \<and>
      timers (pollMessages rt clock net s) = timers s @ [60000] \<and>
      retryTimeout (pollMessages rt clock net s) = Some (length (timers s))) \<and>
   (truthy (error (fst (fetchMessagesFromApi rt net s))) \<longrightarrow>
      timers (pollMessages rt clock net s) = timers s @ [60000])"
proof (intro conjI impI)
  assume a: "truthy (error (fst (fetchMessagesFromApi rt net s)))"
  show "timers (pollMessages rt clock net s) = timers s @ [60000]"
    by (simp add: pollMessages_failed [OF a] pollFailed_fields fetch_frame)
next
  assume nc: "notConfigured rt (n8nGetMessagesUrl (settings s))"
  note f = fetch_not_configured [OF nc, where net = net]
  have t: "truthy (error (fst (fetchMessagesFromApi rt net s)))"
    by (simp add: f truthy_def)
  show "fetchMessagesFromApi rt net s =
        (\<lparr>data = [], error = Some ''n8n Get Messages URL not configured. Please check Settings.''\<rparr>, s)"
    by (rule f)
  show "requests (pollMessages rt clock net s) = requests s"
    by (simp add: pollMessages_failed [OF t] pollFailed_fields f)
  show "events (pollMessages rt clock net s) =
        events s @ (if onErrorCallback s
                    then [ErrorRaised ''n8n Get Messages URL not configured. Please check Settings.'']
                    else [])"
    by (simp add: pollMessages_failed [OF t] pollFailed_fields f)
  show "timers (pollMessages rt clock net s) = timers s @ [60000]"
    by (simp add: pollMessages_failed [OF t] pollFailed_fields f)
  show "retryTimeout (pollMessages rt clock net s) = Some (length (timers s))"
    by (simp add: pollMessages_failed [OF t] pollFailed_fields f)
qed

theorem poll_not_configured_witness:
  "notConfigured sampleRuntime (n8nGetMessagesUrl (settings blankService)) \<and>
   requests (pollMessages sampleRuntime sampleClock (okResponse (JArray [])) blankService) = [] \<and>
   events (pollMessages sampleRuntime sampleClock (okResponse (JArray [])) blankService) =
     [ErrorRaised ''n8n Get Messages URL not configured. Please check Settings.''] \<and>
   timers (pollMessages sampleRuntime sampleClock (okResponse (JArray [])) blankService) = [60000]"
proof -
  note T = poll_not_configured [where rt = sampleRuntime and s = blankService and
      net = "okResponse (JArray [])" and clock = sampleClock]
  have h: "notConfigured sampleRuntime (n8nGetMessagesUrl (settings blankService))"
    by (simp add: sample_defs notConfigured_def)
  have s: "requests blankService = []" "events blankService = []" "timers blankService = []"
    "onErrorCallback blankService"
    by (simp_all add: sample_defs)
  from T h s show ?thesis by simp
qed

text \<open>
  The claim as stated fails: with a blank read endpoint and no timer pending, one poll
  leaves the retry timer of 60000 milliseconds started.
\<close>

theorem retry_after_config_error_counterexample:
  "notConfigured sampleRuntime (n8nGetMessagesUrl (settings blankService)) \<and>
   timers blankService = [] \<and> retryTimeout blankService = None \<and>
   timers (pollMessages sampleRuntime sampleClock (okResponse (JArray [])) blankService) = [60000] \<and>
   retryTimeout (pollMessages sampleRuntime sampleClock (okResponse (JArray [])) blankService) = Some 0"
  by (simp add: sample_defs notConfigured_def pollMessages_def fetchMessagesFromApi_def
      fetchMessages_try_def fetchErrorMessage_def pollFailed_def Let_def)


section \<open>Sending\<close>

lemma sendMessage_ok:
  "\<not> notConfigured rt (n8nWebhookUrl (settings s)) \<Longrightarrow> responseOk r \<Longrightarrow>
   sendMessage rt clock (Responded r) dest txt s =
     (\<lparr>data = True, error = None\<rparr>,
      s\<lparr>requests := requests s @
           [PostRequest (n8nWebhookUrl (settings s)) dest txt (toISOString rt (clock 0))],
        allMessages := allMessages s @ [optimisticMessage rt clock dest txt],
        processedMessageIds :=
          insert (''temp-'' @ numberString rt (real_of_int (clock 2))) (processedMessageIds s)\<rparr>)"
  by (simp add: sendMessage_def sendMessage_try_def Let_def optimisticMessage_def)

lemma sendMessage_not_configured:
  "notConfigured rt (n8nWebhookUrl (settings s)) \<Longrightarrow>
   sendMessage rt clock net dest txt s =
     (\<lparr>data = False, error = Some (sendErrorMessage (JsError ''Error''
         ''n8n Send Message URL not configured. Please check Settings.''))\<rparr>, s)"
  by (simp add: sendMessage_def sendMessage_try_def Let_def)

lemma sendMessage_rejected:
  "\<not> notConfigured rt (n8nWebhookUrl (settings s)) \<Longrightarrow>
   sendMessage rt clock (Rejected e) dest txt s =
     (\<lparr>data = False, error = Some (sendErrorMessage e)\<rparr>,
      s\<lparr>requests := requests s @
           [PostRequest (n8nWebhookUrl (settings s)) dest txt (toISOString rt (clock 0))]\<rparr>)"
  by (simp add: sendMessage_def sendMessage_try_def Let_def)

lemma sendMessage_not_ok:
  "\<not> notConfigured rt (n8nWebhookUrl (settings s)) \<Longrightarrow> \<not> responseOk r \<Longrightarrow>
   sendMessage rt clock (Responded r) dest txt s =
     (\<lparr>data = False, error = Some (sendErrorMessage (JsError ''Error'' (httpErrorMessage rt r)))\<rparr>,
      s\<lparr>requests := requests s @
           [PostRequest (n8nWebhookUrl (settings s)) dest txt (toISOString rt (clock 0))]\<rparr>)"
  by (simp add: sendMessage_def sendMessage_try_def Let_def)









text \<open>
  Claim C4, as amended. A successful \<^verbatim>\<open>sendMessage\<close> returns the success result and does
  the merge itself: it appends one optimistic message (outgoing, status sent, identifier
  \<^verbatim>\<open>temp-\<close> followed by the clock reading) to the message list and adds that
  identifier to the set of processed identifiers.
\<close>

theorem sendMessage_success:
  "\<not> notConfigured rt (n8nWebhookUrl (settings s)) \<and> responseOk r \<longrightarrow>
     fst (sendMessage rt clock (Responded r) dest txt s) = \<lparr>data = True, error = None\<rparr> \<and>
     allMessages (snd (sendMessage rt clock (Responded r) dest txt s)) =
       allMessages s @
         [\<lparr>conversationId = dest, timestamp = toISOString rt (clock 1), body = txt,
           direction = Outgoing, msgId = Some (''temp-'' @ numberString rt (real_of_int (clock 2))),
           status = Some Sent\<rparr>] \<and>
     processedMessageIds (snd (sendMessage rt clock (Responded r) dest txt s)) =
       insert (''temp-'' @ numberString rt (real_of_int (clock 2))) (processedMessageIds s)"
  by (simp add: sendMessage_ok optimisticMessage_def)

lemma sample_webhook: "\<not> notConfigured sampleRuntime (n8nWebhookUrl (settings sampleService))"
  by (simp add: sample_defs notConfigured_def asciiTrim_def asciiSpace_def)

lemma sample_ok: "responseOk \<lparr>httpStatus = 200, statusText = ''OK'', responseText = Some [],
                responseJson = Inr j\<rparr>"
  by (simp add: responseOk_def)

lemma sample_temp_id:
  "numberString sampleRuntime (real_of_int (sampleClock i)) = ''1735732800000''"
  by (simp add: sampleClock_def sampleRuntime_def integerString_def decimal.simps digitChar_def)

lemma sample_noon: "toISOString sampleRuntime (sampleClock i) = ''2025-01-01T12:00:00.000Z''"
  by (simp add: sampleClock_def sampleRuntime_def sampleInstants_def)

theorem sendMessage_success_witness:
  "\<not> notConfigured sampleRuntime (n8nWebhookUrl (settings sampleService)) \<and>
   fst (sendMessage sampleRuntime sampleClock (okResponse JNull) ''555'' ''hello'' sampleService) =
     \<lparr>data = True, error = None\<rparr> \<and>
   allMessages (snd (sendMessage sampleRuntime sampleClock (okResponse JNull) ''555'' ''hello''
                       sampleService)) =
     [\<lparr>conversationId = ''555'', timestamp = ''2025-01-01T12:00:00.000Z'', body = ''hello'',
       direction = Outgoing, msgId = Some ''temp-1735732800000'', status = Some Sent\<rparr>] \<and>
   processedMessageIds (snd (sendMessage sampleRuntime sampleClock (okResponse JNull) ''555''
                               ''hello'' sampleService)) = {''temp-1735732800000''}"
proof -
  note T = sendMessage_success [of sampleRuntime sampleService
      "\<lparr>httpStatus = 200, statusText = ''OK'', responseText = Some [], responseJson = Inr JNull\<rparr>"
      sampleClock "''555''" "''hello''"]
  have s: "allMessages sampleService = []" "processedMessageIds sampleService = {}"
    by (simp_all add: sample_defs)
  from T sample_webhook sample_ok s show ?thesis
    by (simp add: okResponse_def sample_temp_id sample_noon)
qed

text \<open>
  The claim as stated fails: a successful send on the empty store returns success and
  leaves one message in the list and one identifier in the set.
\<close>

theorem sendOne_merges_counterexample:
  "fst (sendMessage sampleRuntime sampleClock (okResponse JNull) ''555'' ''hello'' sampleService) =
     \<lparr>data = True, error = None\<rparr> \<and>
   allMessages sampleService = [] \<and>
   processedMessageIds sampleService = {} \<and>
   allMessages (snd (sendMessage sampleRuntime sampleClock (okResponse JNull) ''555'' ''hello''
                       sampleService)) =
     [\<lparr>conversationId = ''555'', timestamp = ''2025-01-01T12:00:00.000Z'', body = ''hello'',
       direction = Outgoing, msgId = Some ''temp-1735732800000'', status = Some Sent\<rparr>] \<and>
   processedMessageIds (snd (sendMessage sampleRuntime sampleClock (okResponse JNull) ''555''
                               ''hello'' sampleService)) = {''temp-1735732800000''}"
  by (simp add: okResponse_def sendMessage_ok [OF sample_webhook sample_ok] optimisticMessage_def
      sample_temp_id sample_noon)
     (simp add: sample_defs)

section \<open>Optimistic messages and the refresh\<close>

lemma identifiers_append: "identifiers (xs @ ys) = identifiers xs \<union> identifiers ys"
  by (auto simp: identifiers_def in_these_eq)

lemma pollMessages_allMessages_failed:
  "truthy (error (fst (fetchMessagesFromApi rt net s))) \<Longrightarrow>
   allMessages (pollMessages rt clock net s) = allMessages s \<and>
   processedMessageIds (pollMessages rt clock net s) = processedMessageIds s"
  by (simp add: pollMessages_failed pollFailed_fields fetch_frame)

lemma pollMessages_allMessages_merged:
  "\<not> truthy (error (fst (fetchMessagesFromApi rt net s))) \<Longrightarrow>
   allMessages (pollMessages rt clock net s) =
     arraySort (messagesAscending rt) (convertAll rt clock (data (fst (fetchMessagesFromApi rt net s)))) \<and>
   processedMessageIds (pollMessages rt clock net s) =
     processedMessageIds s \<union> (set (map apiId (data (fst (fetchMessagesFromApi rt net s)))) - {[]})"
  by (simp add: pollMessages_merged replaceAll_allMessages replaceAll_processed fetch_frame)

lemma pollMessages_processed_mono:
  "processedMessageIds s \<subseteq> processedMessageIds (pollMessages rt clock net s)"
  using pollMessages_allMessages_failed [of rt net s clock]
    pollMessages_allMessages_merged [of rt net s clock]
  by (cases "truthy (error (fst (fetchMessagesFromApi rt net s)))") auto

text \<open>
  Claim C3, as amended. After a successful send the optimistic message is in the store.
  A poll whose fetch result carries a non-empty error string leaves the message list as
  it is. Every other poll (a successful fetch, and also a failed one whose error string
  is empty, with no data) replaces the list by the converted batch of the fetch result,
  so an optimistic message whose identifier is not in that batch is no longer in the
  store. Its identifier stays in the set of processed identifiers in both cases.
\<close>

theorem optimistic_until_refresh:
  "\<not> notConfigured rt (n8nWebhookUrl (settings s)) \<and> responseOk r \<longrightarrow>
     optimisticMessage rt clock dest txt
       \<in> set (allMessages (snd (sendMessage rt clock (Responded r) dest txt s))) \<and>
     (truthy (error (fst (fetchMessagesFromApi rt net
                            (snd (sendMessage rt clock (Responded r) dest txt s))))) \<longrightarrow>
        allMessages (pollMessages rt clock2 net (snd (sendMessage rt clock (Responded r) dest txt s))) =
          allMessages (snd (sendMessage rt clock (Responded r) dest txt s))) \<and>
     (\<not> truthy (error (fst (fetchMessagesFromApi rt net
                            (snd (sendMessage rt clock (Responded r) dest txt s))))) \<longrightarrow>
        mset (allMessages (pollMessages rt clock2 net
                             (snd (sendMessage rt clock (Responded r) dest txt s)))) =
          mset (convertAll rt clock2 (data (fst (fetchMessagesFromApi rt net
                            (snd (sendMessage rt clock (Responded r) dest txt s)))))) \<and>
        (''temp-'' @ numberString rt (real_of_int (clock 2))
           \<notin> set (map apiId (data (fst (fetchMessagesFromApi rt net
                            (snd (sendMessage rt clock (Responded r) dest txt s)))))) \<longrightarrow>
         optimisticMessage rt clock dest txt
           \<notin> set (allMessages (pollMessages rt clock2 net
                             (snd (sendMessage rt clock (Responded r) dest txt s)))))) \<and>
     ''temp-'' @ numberString rt (real_of_int (clock 2))
       \<in> processedMessageIds (pollMessages rt clock2 net
                                 (snd (sendMessage rt clock (Responded r) dest txt s)))"
proof (intro impI)
  assume a: "\<not> notConfigured rt (n8nWebhookUrl (settings s)) \<and> responseOk r"
  define s1 where "s1 = snd (sendMessage rt clock (Responded r) dest txt s)"
  define res where "res = fst (fetchMessagesFromApi rt net s1)"
  from a have s1: "allMessages s1 = allMessages s @ [optimisticMessage rt clock dest txt]"
    "processedMessageIds s1 = insert (''temp-'' @ numberString rt (real_of_int (clock 2))) (processedMessageIds s)"
    by (simp_all add: s1_def sendMessage_ok)
  have p1: "optimisticMessage rt clock dest txt \<in> set (allMessages s1)"
    by (simp add: s1)
  have p2: "truthy (error res) \<longrightarrow> allMessages (pollMessages rt clock2 net s1) = allMessages s1"
    using pollMessages_allMessages_failed [of rt net s1 clock2] by (simp add: res_def)
  have p3: "\<not> truthy (error res) \<longrightarrow>
        mset (allMessages (pollMessages rt clock2 net s1)) = mset (convertAll rt clock2 (data res)) \<and>
        (''temp-'' @ numberString rt (real_of_int (clock 2)) \<notin> set (map apiId (data res)) \<longrightarrow>
         optimisticMessage rt clock dest txt \<notin> set (allMessages (pollMessages rt clock2 net s1)))"
  proof (intro impI conjI)
    assume ok: "\<not> truthy (error res)"
    then have am: "allMessages (pollMessages rt clock2 net s1) =
        arraySort (messagesAscending rt) (convertAll rt clock2 (data res))"
      using pollMessages_allMessages_merged [of rt net s1 clock2] by (simp add: res_def)
    show "mset (allMessages (pollMessages rt clock2 net s1)) = mset (convertAll rt clock2 (data res))"
      by (simp add: am mset_arraySort)
    assume notin: "''temp-'' @ numberString rt (real_of_int (clock 2)) \<notin> set (map apiId (data res))"
    show "optimisticMessage rt clock dest txt \<notin> set (allMessages (pollMessages rt clock2 net s1))"
    proof
      assume "optimisticMessage rt clock dest txt \<in> set (allMessages (pollMessages rt clock2 net s1))"
      then obtain x where "x \<in> set (data res)" "msgId (optimisticMessage rt clock dest txt) = Some (apiId x)"
        using sorted_converted_ids [of _ "messagesAscending rt" rt clock2 "data res"] am by auto
      with notin show False by (auto simp: optimisticMessage_def)
    qed
  qed
  have p4: "''temp-'' @ numberString rt (real_of_int (clock 2)) \<in> processedMessageIds (pollMessages rt clock2 net s1)"
    using pollMessages_processed_mono [of s1 rt clock2 net] s1(2) by auto
  from p1 p2 p3 p4 show "optimisticMessage rt clock dest txt
       \<in> set (allMessages (snd (sendMessage rt clock (Responded r) dest txt s))) \<and>
     (truthy (error (fst (fetchMessagesFromApi rt net
                            (snd (sendMessage rt clock (Responded r) dest txt s))))) \<longrightarrow>
        allMessages (pollMessages rt clock2 net (snd (sendMessage rt clock (Responded r) dest txt s))) =
          allMessages (snd (sendMessage rt clock (Responded r) dest txt s))) \<and>
     (\<not> truthy (error (fst (fetchMessagesFromApi rt net
                            (snd (sendMessage rt clock (Responded r) dest txt s))))) \<longrightarrow>
        mset (allMessages (pollMessages rt clock2 net
                             (snd (sendMessage rt clock (Responded r) dest txt s)))) =
          mset (convertAll rt clock2 (data (fst (fetchMessagesFromApi rt net
                            (snd (sendMessage rt clock (Responded r) dest txt s)))))) \<and>
        (''temp-'' @ numberString rt (real_of_int (clock 2))
           \<notin> set (map apiId (data (fst (fetchMessagesFromApi rt net
                            (snd (sendMessage rt clock (Responded r) dest txt s)))))) \<longrightarrow>
         optimisticMessage rt clock dest txt
           \<notin> set (allMessages (pollMessages rt clock2 net
                             (snd (sendMessage rt clock (Responded r) dest txt s)))))) \<and>
     ''temp-'' @ numberString rt (real_of_int (clock 2))
       \<in> processedMessageIds (pollMessages rt clock2 net
                                 (snd (sendMessage rt clock (Responded r) dest txt s)))"
    unfolding s1_def res_def by blast
qed


lemma validMessage_toJson: "validMessage rt (toJson r) = Inr (Some r)"
  by (cases "phoneNumber r"; cases "apiDirection r")
     (simp_all add: toJson_def asApiMessage_def property_def)

lemma validMessages_toJson: "validMessages rt (map toJson batch) = Inr batch"
  by (induction batch) (simp_all add: validMessage_toJson)

lemma fetch_toJson:
  "\<not> notConfigured rt (n8nGetMessagesUrl (settings s)) \<Longrightarrow>
   fst (fetchMessagesFromApi rt (okResponse (JArray (map toJson batch))) s) =
     \<lparr>data = batch, error = None\<rparr>"
  by (simp add: fetchMessagesFromApi_def fetchMessages_try_def Let_def okResponse_def
      responseOk_def validMessages_toJson)

lemma sample_read_url: "\<not> notConfigured sampleRuntime (n8nGetMessagesUrl (settings sampleService))"
  by (simp add: sample_defs notConfigured_def asciiTrim_def asciiSpace_def)

lemma send_keeps_settings: "settings (snd (sendMessage rt clock net dest txt s)) = settings s"
  by (cases net)
     (simp_all add: sendMessage_def sendMessage_try_def Let_def optimisticMessage_def
        split: sum.splits)

lemma sample_sorted_inbound:
  "arraySort (messagesAscending sampleRuntime) (convertAll sampleRuntime sampleClock [sampleInbound]) =
     [\<lparr>conversationId = ''555'', timestamp = ''2025-01-01T10:00:00.000Z'', body = ''hi'',
       direction = Incoming, msgId = Some ''a'', status = None\<rparr>]"
  by (simp add: sample_defs eval_defs)

theorem optimistic_until_refresh_witness:
  "\<not> notConfigured sampleRuntime (n8nWebhookUrl (settings sampleService)) \<and>
   optimisticMessage sampleRuntime sampleClock ''555'' ''hello''
     \<in> set (allMessages (snd (sendMessage sampleRuntime sampleClock (okResponse JNull)
                                 ''555'' ''hello'' sampleService))) \<and>
   optimisticMessage sampleRuntime sampleClock ''555'' ''hello''
     \<notin> set (allMessages (pollMessages sampleRuntime sampleClock
                (okResponse (JArray (map toJson [sampleInbound])))
                (snd (sendMessage sampleRuntime sampleClock (okResponse JNull)
                        ''555'' ''hello'' sampleService)))) \<and>
   ''temp-'' @ numberString sampleRuntime (real_of_int (sampleClock 2))
     \<in> processedMessageIds (pollMessages sampleRuntime sampleClock
          (okResponse (JArray (map toJson [sampleInbound])))
          (snd (sendMessage sampleRuntime sampleClock (okResponse JNull)
                  ''555'' ''hello'' sampleService)))"
proof -
  let ?r = "\<lparr>httpStatus = 200, statusText = ''OK'', responseText = Some [],
             responseJson = Inr JNull\<rparr>"
  let ?net = "okResponse (JArray (map toJson [sampleInbound]))"
  let ?s1 = "snd (sendMessage sampleRuntime sampleClock (Responded ?r) ''555'' ''hello'' sampleService)"
  note T = optimistic_until_refresh [of sampleRuntime sampleService ?r sampleClock
      "''555''" "''hello''" ?net sampleClock]
  have url: "\<not> notConfigured sampleRuntime (n8nGetMessagesUrl (settings ?s1))"
    by (simp add: send_keeps_settings sample_read_url)
  have f: "fst (fetchMessagesFromApi sampleRuntime ?net ?s1) = \<lparr>data = [sampleInbound], error = None\<rparr>"
    using fetch_toJson [OF url, where batch = "[sampleInbound]"] by simp
  have ok: "\<not> truthy (error (fst (fetchMessagesFromApi sampleRuntime ?net ?s1)))"
    unfolding f by (simp add: truthy_def)
  have notin: "''temp-'' @ numberString sampleRuntime (real_of_int (sampleClock 2))
      \<notin> set (map apiId (data (fst (fetchMessagesFromApi sampleRuntime ?net ?s1))))"
    unfolding f by (simp add: sampleInbound_def)
  from T sample_webhook sample_ok [of JNull] ok notin show ?thesis
    unfolding okResponse_def by blast
qed

text \<open>
  The claim as stated fails: after a successful send, a poll that fetches one message
  with another identifier leaves only that message in the store.
\<close>

theorem optimistic_dropped_counterexample:
  "allMessages (snd (sendMessage sampleRuntime sampleClock (okResponse JNull) ''555'' ''hello''
                       sampleService)) =
     [\<lparr>conversationId = ''555'', timestamp = ''2025-01-01T12:00:00.000Z'', body = ''hello'',
       direction = Outgoing, msgId = Some ''temp-1735732800000'', status = Some Sent\<rparr>] \<and>
   ''temp-1735732800000'' \<notin> set (map apiId [sampleInbound]) \<and>
   fst (fetchMessagesFromApi sampleRuntime (okResponse (JArray (map toJson [sampleInbound])))
          (snd (sendMessage sampleRuntime sampleClock (okResponse JNull) ''555'' ''hello''
                  sampleService))) = \<lparr>data = [sampleInbound], error = None\<rparr> \<and>
   allMessages (pollMessages sampleRuntime sampleClock
       (okResponse (JArray (map toJson [sampleInbound])))
       (snd (sendMessage sampleRuntime sampleClock (okResponse JNull) ''555'' ''hello''
               sampleService))) =
     [\<lparr>conversationId = ''555'', timestamp = ''2025-01-01T10:00:00.000Z'', body = ''hi'',
       direction = Incoming, msgId = Some ''a'', status = None\<rparr>]"
proof -
  let ?net = "okResponse (JArray (map toJson [sampleInbound]))"
  let ?s1 = "snd (sendMessage sampleRuntime sampleClock (okResponse JNull) ''555'' ''hello'' sampleService)"
  have a: "allMessages ?s1 =
     [\<lparr>conversationId = ''555'', timestamp = ''2025-01-01T12:00:00.000Z'', body = ''hello'',
       direction = Outgoing, msgId = Some ''temp-1735732800000'', status = Some Sent\<rparr>]"
    by (simp add: okResponse_def sendMessage_ok [OF sample_webhook sample_ok] optimisticMessage_def
        sample_temp_id sample_noon)
       (simp add: sample_defs)
  have url: "\<not> notConfigured sampleRuntime (n8nGetMessagesUrl (settings ?s1))"
    by (simp add: send_keeps_settings sample_read_url)
  have f: "fst (fetchMessagesFromApi sampleRuntime ?net ?s1) = \<lparr>data = [sampleInbound], error = None\<rparr>"
    by (rule fetch_toJson [OF url])
  have ok: "\<not> truthy (error (fst (fetchMessagesFromApi sampleRuntime ?net ?s1)))"
    unfolding f by (simp add: truthy_def)
  have b: "allMessages (pollMessages sampleRuntime sampleClock ?net ?s1) =
     [\<lparr>conversationId = ''555'', timestamp = ''2025-01-01T10:00:00.000Z'', body = ''hi'',
       direction = Incoming, msgId = Some ''a'', status = None\<rparr>]"
    using pollMessages_allMessages_merged [OF ok, of sampleClock]
    unfolding f by (simp add: sample_sorted_inbound)
  have c: "''temp-1735732800000'' \<notin> set (map apiId [sampleInbound])"
    by (simp add: sampleInbound_def)
  from a b c f show ?thesis by blast
qed

section \<open>Consistency of the store\<close>

text \<open>
  Claim C8. The state after the constructor is consistent, and a poll (failed or
  merged), a send (failed or successful) and a reset each take a consistent state to a
  consistent state: every stored message with a non-empty identifier has its identifier
  in the set of processed identifiers.
\<close>

theorem store_consistent_preserved:
  "storeConsistent (newApiService st) \<and>
   (storeConsistent s \<longrightarrow>
      storeConsistent (pollMessages rt clock net s) \<and>
      storeConsistent (snd (sendMessage rt clock net dest txt s)) \<and>
      storeConsistent (resetProcessedMessages s))"
proof (intro conjI impI)
  show "storeConsistent (newApiService st)"
    by (simp add: storeConsistent_def newApiService_def identifiers_Nil)
next
  assume c: "storeConsistent s"
  show "storeConsistent (pollMessages rt clock net s)"
  proof (cases "truthy (error (fst (fetchMessagesFromApi rt net s)))")
    case True
    with c show ?thesis
      by (simp add: storeConsistent_def pollMessages_allMessages_failed)
  next
    case False
    then show ?thesis
      by (auto simp: storeConsistent_def pollMessages_allMessages_merged
          identifiers_sorted_converted)
  qed
  show "storeConsistent (snd (sendMessage rt clock net dest txt s))"
  proof (cases "notConfigured rt (n8nWebhookUrl (settings s))")
    case True
    with c show ?thesis by (simp add: sendMessage_not_configured)
  next
    case False
    show ?thesis
    proof (cases net)
      case (Rejected e)
      with c False show ?thesis by (simp add: sendMessage_rejected storeConsistent_def)
    next
      case (Responded r)
      with c False show ?thesis
        by (cases "responseOk r")
           (auto simp: sendMessage_ok sendMessage_not_ok storeConsistent_def identifiers_append
              identifiers_def in_these_eq optimisticMessage_def)
    qed
  qed
  show "storeConsistent (resetProcessedMessages s)"
    by (simp add: storeConsistent_def resetProcessedMessages_def identifiers_Nil)
qed

theorem store_consistent_preserved_witness:
  "storeConsistent sampleService \<and>
   storeConsistent (pollMessages sampleRuntime sampleClock
      (okResponse (JArray (map toJson [sampleOutbound, sampleInbound]))) sampleService) \<and>
   storeConsistent (snd (sendMessage sampleRuntime sampleClock (okResponse JNull) ''555''
      ''hello'' sampleService)) \<and>
   storeConsistent (resetProcessedMessages sampleService)"
proof -
  have h: "storeConsistent sampleService"
    by (simp add: storeConsistent_def sample_defs identifiers_Nil)
  from h store_consistent_preserved [of sampleSettings sampleService sampleRuntime sampleClock
      "okResponse (JArray (map toJson [sampleOutbound, sampleInbound]))" "''555''" "''hello''"]
    store_consistent_preserved [of sampleSettings sampleService sampleRuntime sampleClock
      "okResponse JNull" "''555''" "''hello''"]
  show ?thesis by blast
qed


section \<open>Repeated identifiers in one batch\<close>

lemma insertSorted_oldestFirst:
  assumes "parseDate rt (timestamp x) \<noteq> None"
    and "\<forall>m \<in> set xs. parseDate rt (timestamp m) \<noteq> None"
    and "sorted_wrt (olderOrEqual rt) xs"
  shows "sorted_wrt (olderOrEqual rt) (insertSorted (messagesAscending rt) x xs)"
  using assms
proof (induction xs)
  case Nil
  show ?case by simp
next
  case (Cons y ys)
  from Cons.prems obtain tx ty where tx: "parseDate rt (timestamp x) = Some tx"
    and ty: "parseDate rt (timestamp y) = Some ty" by auto
  have cmp: "messagesAscending rt x y = tx - ty"
    by (simp add: messagesAscending_def timeDifference_def tx ty)
  show ?case
  proof (cases "ty < tx")
    case True
    have yx: "olderOrEqual rt y x" using True by (simp add: olderOrEqual_def tx ty)
    from Cons have "sorted_wrt (olderOrEqual rt) (insertSorted (messagesAscending rt) x ys)"
      by simp
    with Cons.prems(3) yx True cmp show ?thesis
      by (simp add: set_insertSorted)
  next
    case False
    have xy: "olderOrEqual rt x y" using False by (simp add: olderOrEqual_def tx ty)
    have "olderOrEqual rt x z" if "z \<in> set ys" for z
    proof -
      from that Cons.prems(3) have "olderOrEqual rt y z" by simp
      with False show ?thesis
        by (auto simp: olderOrEqual_def tx ty split: option.splits)
    qed
    with Cons.prems(3) xy False cmp show ?thesis by simp
  qed
qed

lemma arraySort_oldestFirst:
  "\<forall>m \<in> set ms. parseDate rt (timestamp m) \<noteq> None \<Longrightarrow>
   oldestFirst rt (arraySort (messagesAscending rt) ms)"
proof (induction ms)
  case Nil
  show ?case by (simp add: oldestFirst_def arraySort_def)
next
  case (Cons m ms)
  have step: "arraySort (messagesAscending rt) (m # ms) =
      insertSorted (messagesAscending rt) m (arraySort (messagesAscending rt) ms)"
    by (simp add: arraySort_def)
  from Cons have "sorted_wrt (olderOrEqual rt) (arraySort (messagesAscending rt) ms)"
    by (simp add: oldestFirst_def)
  with Cons.prems show ?case
    unfolding oldestFirst_def step
    by (intro insertSorted_oldestFirst) (simp_all add: set_arraySort)
qed

lemma insertSorted_stable:
  "filter (\<lambda>m. parseDate rt (timestamp m) = Some t) (insertSorted (messagesAscending rt) x xs) =
   filter (\<lambda>m. parseDate rt (timestamp m) = Some t) (x # xs)"
proof (induction xs)
  case Nil
  show ?case by simp
next
  case (Cons y ys)
  show ?case
  proof (cases "messagesAscending rt x y > 0")
    case True
    then have "\<not> (parseDate rt (timestamp x) = Some t \<and> parseDate rt (timestamp y) = Some t)"
      by (auto simp: messagesAscending_def timeDifference_def)
    with True Cons show ?thesis by auto
  next
    case False
    then show ?thesis by simp
  qed
qed

lemma arraySort_stable:
  "filter (\<lambda>m. parseDate rt (timestamp m) = Some t) (arraySort (messagesAscending rt) ms) =
   filter (\<lambda>m. parseDate rt (timestamp m) = Some t) ms"
proof (induction ms)
  case Nil
  show ?case by (simp add: arraySort_def)
next
  case (Cons m ms)
  have step: "arraySort (messagesAscending rt) (m # ms) =
      insertSorted (messagesAscending rt) m (arraySort (messagesAscending rt) ms)"
    by (simp add: arraySort_def)
  from Cons show ?case
    unfolding step insertSorted_stable by simp
qed

text \<open>
  Claim C7, as amended. Every element of a fetched batch is merged into the store, also
  two elements that share an identifier. The stored list is in ascending order of the
  instants (when the timestamps of the converted batch are valid dates, as the output
  of the normalizer is in every engine), and the messages of one instant keep the order
  they have in the batch. The increment holds at most one message for each identifier,
  and of the stored messages with a non-empty identifier that was not processed
  before, the first one in the stored order is in the increment.
\<close>

theorem repeated_identifier_stored:
  "mset (allMessages (snd (replaceAll rt clock batch s))) = mset (convertAll rt clock batch) \<and>
   ((\<forall>m \<in> set (convertAll rt clock batch). parseDate rt (timestamp m) \<noteq> None) \<longrightarrow>
      oldestFirst rt (allMessages (snd (replaceAll rt clock batch s)))) \<and>
   (\<forall>t. filter (\<lambda>m. parseDate rt (timestamp m) = Some t)
           (allMessages (snd (replaceAll rt clock batch s))) =
         filter (\<lambda>m. parseDate rt (timestamp m) = Some t) (convertAll rt clock batch)) \<and>
   distinct (map msgId (fst (replaceAll rt clock batch s))) \<and>
   (\<forall>k < length (allMessages (snd (replaceAll rt clock batch s))). \<forall>i.
      msgId (allMessages (snd (replaceAll rt clock batch s)) ! k) = Some i \<and> i \<noteq> [] \<and>
      i \<notin> processedMessageIds s \<and>
      (\<forall>j < k. msgId (allMessages (snd (replaceAll rt clock batch s)) ! j) \<noteq> Some i) \<longrightarrow>
      allMessages (snd (replaceAll rt clock batch s)) ! k \<in> set (fst (replaceAll rt clock batch s)))"
proof (intro conjI allI impI)
  show "mset (allMessages (snd (replaceAll rt clock batch s))) = mset (convertAll rt clock batch)"
    by (simp add: replaceAll_allMessages mset_arraySort)
  show "distinct (map msgId (fst (replaceAll rt clock batch s)))"
    by (simp add: replaceAll_fst filterNew_distinct)
next
  assume "\<forall>m \<in> set (convertAll rt clock batch). parseDate rt (timestamp m) \<noteq> None"
  then show "oldestFirst rt (allMessages (snd (replaceAll rt clock batch s)))"
    unfolding replaceAll_allMessages by (rule arraySort_oldestFirst)
next
  fix t
  show "filter (\<lambda>m. parseDate rt (timestamp m) = Some t)
           (allMessages (snd (replaceAll rt clock batch s))) =
         filter (\<lambda>m. parseDate rt (timestamp m) = Some t) (convertAll rt clock batch)"
    unfolding replaceAll_allMessages by (rule arraySort_stable)
next
  fix k i
  assume k: "k < length (allMessages (snd (replaceAll rt clock batch s)))"
    and a: "msgId (allMessages (snd (replaceAll rt clock batch s)) ! k) = Some i \<and> i \<noteq> [] \<and>
      i \<notin> processedMessageIds s \<and>
      (\<forall>j < k. msgId (allMessages (snd (replaceAll rt clock batch s)) ! j) \<noteq> Some i)"
  then show "allMessages (snd (replaceAll rt clock batch s)) ! k \<in> set (fst (replaceAll rt clock batch s))"
    unfolding replaceAll_allMessages replaceAll_fst
    using filterNew_first [of k _ i "processedMessageIds s"] by blast
qed

lemma sample_sorted_repeat:
  "arraySort (messagesAscending sampleRuntime)
     (convertAll sampleRuntime sampleClock [sampleInbound, sampleRepeat]) =
     [\<lparr>conversationId = ''555'', timestamp = ''2025-01-01T10:00:00.000Z'', body = ''hi'',
       direction = Incoming, msgId = Some ''a'', status = None\<rparr>,
      \<lparr>conversationId = ''555'', timestamp = ''2025-01-01T11:00:00.000Z'', body = ''hi again'',
       direction = Incoming, msgId = Some ''a'', status = None\<rparr>]"
  by (simp add: sample_defs eval_defs)

text \<open>
  The claim as stated fails: of two raw messages with the identifier \<open>a\<close> and different
  timestamps both are stored, and the increment holds the first of them, not the last.
\<close>

theorem last_repeated_wins_counterexample:
  "apiId sampleInbound = apiId sampleRepeat \<and>
   lastMessageHK sampleInbound \<noteq> lastMessageHK sampleRepeat \<and>
   allMessages (snd (replaceAll sampleRuntime sampleClock [sampleInbound, sampleRepeat]
                       sampleService)) =
     [\<lparr>conversationId = ''555'', timestamp = ''2025-01-01T10:00:00.000Z'', body = ''hi'',
       direction = Incoming, msgId = Some ''a'', status = None\<rparr>,
      \<lparr>conversationId = ''555'', timestamp = ''2025-01-01T11:00:00.000Z'', body = ''hi again'',
       direction = Incoming, msgId = Some ''a'', status = None\<rparr>] \<and>
   fst (replaceAll sampleRuntime sampleClock [sampleInbound, sampleRepeat] sampleService) =
     [\<lparr>conversationId = ''555'', timestamp = ''2025-01-01T10:00:00.000Z'', body = ''hi'',
       direction = Incoming, msgId = Some ''a'', status = None\<rparr>]"
proof -
  have a: "apiId sampleInbound = apiId sampleRepeat \<and>
    lastMessageHK sampleInbound \<noteq> lastMessageHK sampleRepeat"
    by (simp add: sample_defs)
  have p: "processedMessageIds sampleService = {}"
    by (simp add: sample_defs)
  have b: "allMessages (snd (replaceAll sampleRuntime sampleClock [sampleInbound, sampleRepeat]
                       sampleService)) =
     [\<lparr>conversationId = ''555'', timestamp = ''2025-01-01T10:00:00.000Z'', body = ''hi'',
       direction = Incoming, msgId = Some ''a'', status = None\<rparr>,
      \<lparr>conversationId = ''555'', timestamp = ''2025-01-01T11:00:00.000Z'', body = ''hi again'',
       direction = Incoming, msgId = Some ''a'', status = None\<rparr>]"
    by (simp only: replaceAll_allMessages sample_sorted_repeat)
  have c: "fst (replaceAll sampleRuntime sampleClock [sampleInbound, sampleRepeat] sampleService) =
     [\<lparr>conversationId = ''555'', timestamp = ''2025-01-01T10:00:00.000Z'', body = ''hi'',
       direction = Incoming, msgId = Some ''a'', status = None\<rparr>]"
    by (simp only: replaceAll_fst sample_sorted_repeat p) simp
  from a b c show ?thesis by blast
qed

lemma sample_sorted_later_first:
  "arraySort (messagesAscending sampleRuntime)
     (convertAll sampleRuntime sampleClock [sampleRepeat, sampleInbound]) =
     [\<lparr>conversationId = ''555'', timestamp = ''2025-01-01T10:00:00.000Z'', body = ''hi'',
       direction = Incoming, msgId = Some ''a'', status = None\<rparr>,
      \<lparr>conversationId = ''555'', timestamp = ''2025-01-01T11:00:00.000Z'', body = ''hi again'',
       direction = Incoming, msgId = Some ''a'', status = None\<rparr>]"
  by (simp add: sample_defs eval_defs)

lemma sample_converted_later_first:
  "convertAll sampleRuntime sampleClock [sampleRepeat, sampleInbound] =
     [\<lparr>conversationId = ''555'', timestamp = ''2025-01-01T11:00:00.000Z'', body = ''hi again'',
       direction = Incoming, msgId = Some ''a'', status = None\<rparr>,
      \<lparr>conversationId = ''555'', timestamp = ''2025-01-01T10:00:00.000Z'', body = ''hi'',
       direction = Incoming, msgId = Some ''a'', status = None\<rparr>]"
  by (simp add: sample_defs eval_defs)

theorem repeated_identifier_stored_witness:
  "convertAll sampleRuntime sampleClock [sampleRepeat, sampleInbound] =
     [\<lparr>conversationId = ''555'', timestamp = ''2025-01-01T11:00:00.000Z'', body = ''hi again'',
       direction = Incoming, msgId = Some ''a'', status = None\<rparr>,
      \<lparr>conversationId = ''555'', timestamp = ''2025-01-01T10:00:00.000Z'', body = ''hi'',
       direction = Incoming, msgId = Some ''a'', status = None\<rparr>] \<and>
   allMessages (snd (replaceAll sampleRuntime sampleClock [sampleRepeat, sampleInbound]
                       sampleService)) =
     [\<lparr>conversationId = ''555'', timestamp = ''2025-01-01T10:00:00.000Z'', body = ''hi'',
       direction = Incoming, msgId = Some ''a'', status = None\<rparr>,
      \<lparr>conversationId = ''555'', timestamp = ''2025-01-01T11:00:00.000Z'', body = ''hi again'',
       direction = Incoming, msgId = Some ''a'', status = None\<rparr>] \<and>
   oldestFirst sampleRuntime
     (allMessages (snd (replaceAll sampleRuntime sampleClock [sampleRepeat, sampleInbound]
                          sampleService))) \<and>
   ''a'' \<notin> processedMessageIds sampleService \<and>
   \<lparr>conversationId = ''555'', timestamp = ''2025-01-01T10:00:00.000Z'', body = ''hi'',
     direction = Incoming, msgId = Some ''a'', status = None\<rparr>
     \<in> set (fst (replaceAll sampleRuntime sampleClock [sampleRepeat, sampleInbound] sampleService)) \<and>
   distinct (map msgId (fst (replaceAll sampleRuntime sampleClock [sampleRepeat, sampleInbound]
                               sampleService)))"
proof -
  let ?stored = "allMessages (snd (replaceAll sampleRuntime sampleClock [sampleRepeat, sampleInbound]
                       sampleService))"
  let ?first = "\<lparr>conversationId = ''555'', timestamp = ''2025-01-01T10:00:00.000Z'', body = ''hi'',
     direction = Incoming, msgId = Some ''a'', status = None\<rparr>"
  note T = repeated_identifier_stored [where rt = sampleRuntime and clock = sampleClock and
      batch = "[sampleRepeat, sampleInbound]" and s = sampleService]
  have st: "?stored =
     [?first,
      \<lparr>conversationId = ''555'', timestamp = ''2025-01-01T11:00:00.000Z'', body = ''hi again'',
       direction = Incoming, msgId = Some ''a'', status = None\<rparr>]"
    by (simp only: replaceAll_allMessages sample_sorted_later_first)
  have valid: "\<forall>m \<in> set (convertAll sampleRuntime sampleClock [sampleRepeat, sampleInbound]).
      parseDate sampleRuntime (timestamp m) \<noteq> None"
    unfolding sample_converted_later_first
    by (simp add: sampleRuntime_def sampleLocale_def sampleInstants_def)
  from T valid have asc: "oldestFirst sampleRuntime ?stored" by blast
  from T have d: "distinct (map msgId (fst (replaceAll sampleRuntime sampleClock
      [sampleRepeat, sampleInbound] sampleService)))" by blast
  have l: "(0::nat) < length ?stored" unfolding st by simp
  have i: "msgId (?stored ! 0) = Some ''a''" unfolding st by simp
  have f0: "?stored ! 0 = ?first" unfolding st by simp
  have p: "''a'' \<notin> processedMessageIds sampleService"
    by (simp add: sample_defs)
  have n: "''a'' \<noteq> ([]::string)" by simp
  from T have "\<forall>k < length ?stored. \<forall>i.
      msgId (?stored ! k) = Some i \<and> i \<noteq> [] \<and> i \<notin> processedMessageIds sampleService \<and>
      (\<forall>j < k. msgId (?stored ! j) \<noteq> Some i) \<longrightarrow>
      ?stored ! k \<in> set (fst (replaceAll sampleRuntime sampleClock [sampleRepeat, sampleInbound] sampleService))"
    by blast
  with l i p n have "?stored ! 0
     \<in> set (fst (replaceAll sampleRuntime sampleClock [sampleRepeat, sampleInbound] sampleService))"
    by blast
  then have mem: "?first
     \<in> set (fst (replaceAll sampleRuntime sampleClock [sampleRepeat, sampleInbound] sampleService))"
    unfolding f0 .
  from sample_converted_later_first st asc p mem d show ?thesis by blast
qed


section \<open>Conversation aggregation\<close>

lemma map_of_mapSet: "map_of (mapSet cmap k v) = (map_of cmap)(k \<mapsto> v)"
  by (induction cmap) (auto simp: fun_eq_iff)

lemma keys_mapSet: "set (map fst (mapSet cmap k v)) = insert k (set (map fst cmap))"
proof -
  have "dom (map_of (mapSet cmap k v)) = insert k (dom (map_of cmap))"
    by (simp add: map_of_mapSet)
  then show ?thesis by (simp add: dom_map_of_conv_image_fst)
qed

lemma distinct_mapSet: "distinct (map fst cmap) \<Longrightarrow> distinct (map fst (mapSet cmap k v))"
proof (induction cmap)
  case Nil
  show ?case by simp
next
  case (Cons kv cmap)
  obtain k' v' where kv: "kv = (k', v')" by (cases kv)
  show ?case
  proof (cases "k' = k")
    case True
    with Cons.prems kv show ?thesis by simp
  next
    case False
    have "k' \<notin> set (map fst (mapSet cmap k v))"
      using Cons.prems kv False by (simp only: keys_mapSet) auto
    with Cons kv False show ?thesis by simp
  qed
qed

lemma represents_snoc_keep:
  assumes r: "represents rt ms k c"
    and older: "conversationId m = k \<Longrightarrow>
      \<exists>t t0. parseDate rt (timestamp m) = Some t \<and>
             parseDate rt (contactTimestamp c) = Some t0 \<and> t \<le> t0"
  shows "represents rt (ms @ [m]) k c"
proof -
  from r obtain i t0 where i: "i < length ms" "conversationId (ms ! i) = k"
      "contactTimestamp c = timestamp (ms ! i)" "lastMessage c = body (ms ! i)"
      "unread c = (direction (ms ! i) = Incoming)" "parseDate rt (timestamp (ms ! i)) = Some t0"
    and mx: "\<forall>j < length ms. conversationId (ms ! j) = k \<longrightarrow>
               (\<exists>t'. parseDate rt (timestamp (ms ! j)) = Some t' \<and> t' \<le> t0 \<and> (j < i \<longrightarrow> t' < t0))"
    and ph: "phone c = k"
    unfolding represents_def by blast
  have all: "\<exists>t'. parseDate rt (timestamp ((ms @ [m]) ! j)) = Some t' \<and> t' \<le> t0 \<and> (j < i \<longrightarrow> t' < t0)"
    if j: "j < length (ms @ [m])" and kj: "conversationId ((ms @ [m]) ! j) = k" for j
  proof (cases "j < length ms")
    case True
    with kj mx show ?thesis by (simp add: nth_append)
  next
    case False
    with j have jl: "j = length ms" by simp
    with kj have "conversationId m = k" by simp
    from older [OF this] i(3,6) obtain t where "parseDate rt (timestamp m) = Some t" "t \<le> t0"
      by auto
    with jl i(1) show ?thesis by simp
  qed
  have "i < length (ms @ [m])" using i(1) by simp
  moreover have "(ms @ [m]) ! i = ms ! i" using i(1) by (simp add: nth_append)
  ultimately show ?thesis
    unfolding represents_def using ph i all by metis
qed

lemma represents_snoc_new:
  assumes t: "parseDate rt (timestamp m) = Some t"
    and older: "\<forall>j < length ms. conversationId (ms ! j) = conversationId m \<longrightarrow>
               (\<exists>t'. parseDate rt (timestamp (ms ! j)) = Some t' \<and> t' < t)"
  shows "represents rt (ms @ [m]) (conversationId m)
           \<lparr>phone = conversationId m, name = n, lastMessage = body m,
            contactTimestamp = timestamp m, unread = (direction m = Incoming)\<rparr>"
proof -
  let ?i = "length ms"
  have all: "\<exists>t'. parseDate rt (timestamp ((ms @ [m]) ! j)) = Some t' \<and> t' \<le> t \<and> (j < ?i \<longrightarrow> t' < t)"
    if j: "j < length (ms @ [m])" and kj: "conversationId ((ms @ [m]) ! j) = conversationId m" for j
  proof (cases "j < length ms")
    case True
    with kj older obtain t' where "parseDate rt (timestamp (ms ! j)) = Some t'" "t' < t"
      by (auto simp: nth_append)
    with True show ?thesis by (simp add: nth_append)
  next
    case False
    with j have "j = length ms" by simp
    with t show ?thesis by simp
  qed
  have "?i < length (ms @ [m])" by simp
  moreover have "(ms @ [m]) ! ?i = m" by simp
  ultimately show ?thesis
    unfolding represents_def using t all
    by (intro conjI exI [of _ ?i] exI [of _ t]) auto
qed

lemma represents_other:
  "represents rt ms k c \<Longrightarrow> conversationId m \<noteq> k \<Longrightarrow> represents rt (ms @ [m]) k c"
  by (rule represents_snoc_keep) auto

lemma groupStep_valid:
  "groupStep rt m cmap = Inr cmap' \<Longrightarrow> \<exists>t. parseDate rt (timestamp m) = Some t"
  by (cases "parseDate rt (timestamp m)")
     (simp_all add: groupStep_def Let_def dateToISOString_def)

lemma groupStep_summarises:
  assumes inv: "summarises rt ms cmap" and step: "groupStep rt m cmap = Inr cmap'"
  shows "summarises rt (ms @ [m]) cmap'"
proof -
  let ?k = "conversationId m"
  let ?new = "\<lparr>phone = ?k, name = formatPhoneNumber ?k, lastMessage = body m,
               contactTimestamp = timestamp m, unread = (direction m = Incoming)\<rparr>"
  from groupStep_valid [OF step] obtain t where t: "parseDate rt (timestamp m) = Some t" by auto
  from inv have d: "distinct (map fst cmap)"
    and all: "\<And>k. case map_of cmap k of None \<Rightarrow> k \<notin> conversationId ` set ms
                    | Some c \<Rightarrow> represents rt ms k c"
    by (auto simp: summarises_def)
  have others: "\<And>k c. k \<noteq> ?k \<Longrightarrow> map_of cmap k = Some c \<Longrightarrow> represents rt (ms @ [m]) k c"
    using all represents_other by (metis option.simps(5))
  have none: "\<And>k. k \<noteq> ?k \<Longrightarrow> map_of cmap k = None \<Longrightarrow> k \<notin> conversationId ` set (ms @ [m])"
    using all by (force split: option.splits)
  have key: "case (if k = ?k then Some x else map_of cmap k) of
                None \<Rightarrow> k \<notin> conversationId ` set (ms @ [m])
              | Some c \<Rightarrow> represents rt (ms @ [m]) k c"
    if x: "represents rt (ms @ [m]) ?k x" for x k
  proof (cases "k = ?k")
    case True
    with x show ?thesis by simp
  next
    case False
    show ?thesis
    proof (cases "map_of cmap k")
      case None
      with False none [of k] show ?thesis by simp
    next
      case (Some c')
      with False others [of k c'] show ?thesis by simp
    qed
  qed
  show ?thesis
  proof (cases "map_of cmap ?k")
    case None
    with step t have cmap': "cmap' = mapSet cmap ?k ?new"
      by (simp add: groupStep_def Let_def dateToISOString_def)
    from None all [of ?k] have "?k \<notin> conversationId ` set ms" by simp
    then have nok: "\<forall>j < length ms. conversationId (ms ! j) \<noteq> ?k"
      by (metis imageI nth_mem)
    have r: "represents rt (ms @ [m]) ?k ?new"
      by (rule represents_snoc_new [OF t]) (use nok in auto)
    show ?thesis
      unfolding summarises_def cmap'
      using key [OF r] by (simp add: distinct_mapSet d map_of_mapSet)
  next
    case (Some c)
    from all [of ?k] Some have rc: "represents rt ms ?k c" by simp
    then obtain i0 t0 where m0: "i0 < length ms"
      "contactTimestamp c = timestamp (ms ! i0)" "parseDate rt (timestamp (ms ! i0)) = Some t0"
      and mx: "\<forall>j < length ms. conversationId (ms ! j) = ?k \<longrightarrow>
                 (\<exists>t'. parseDate rt (timestamp (ms ! j)) = Some t' \<and> t' \<le> t0)"
      unfolding represents_def by blast
    from m0 have ct: "parseDate rt (contactTimestamp c) = Some t0" by simp
    show ?thesis
    proof (cases "t0 < t")
      case True
      with step t Some ct have cmap': "cmap' = mapSet cmap ?k ?new"
        by (simp add: groupStep_def Let_def dateToISOString_def)
      have "\<forall>j < length ms. conversationId (ms ! j) = ?k \<longrightarrow>
               (\<exists>t'. parseDate rt (timestamp (ms ! j)) = Some t' \<and> t' < t)"
        using mx True by fastforce
      then have r: "represents rt (ms @ [m]) ?k ?new"
        by (rule represents_snoc_new [OF t])
      show ?thesis
        unfolding summarises_def cmap'
        using key [OF r] by (simp add: distinct_mapSet d map_of_mapSet)
    next
      case False
      with step t Some ct have cmap': "cmap' = cmap"
        by (simp add: groupStep_def Let_def dateToISOString_def)
      have r: "represents rt (ms @ [m]) ?k c"
        by (rule represents_snoc_keep [OF rc]) (use t ct False in auto)
      have "case map_of cmap k of
              None \<Rightarrow> k \<notin> conversationId ` set (ms @ [m])
            | Some c \<Rightarrow> represents rt (ms @ [m]) k c" for k
        using key [OF r, of k] Some by (cases "k = ?k") simp_all
      with d show ?thesis
        unfolding summarises_def cmap' by simp
    qed
  qed
qed

lemma groupMessages_summarises:
  "summarises rt before cmap \<Longrightarrow> groupMessages rt ms cmap = Inr cmap' \<Longrightarrow>
   summarises rt (before @ ms) cmap'"
proof (induction ms arbitrary: before cmap)
  case Nil
  then show ?case by simp
next
  case (Cons m ms)
  from Cons.prems(2) obtain cmap1 where s1: "groupStep rt m cmap = Inr cmap1"
    and rest: "groupMessages rt ms cmap1 = Inr cmap'"
    by (auto split: sum.splits)
  from groupStep_summarises [OF Cons.prems(1) s1] have "summarises rt (before @ [m]) cmap1" .
  from Cons.IH [OF this rest] show ?case by simp
qed

lemma summarises_empty: "summarises rt [] []"
  by (simp add: summarises_def)

lemma grouped_represents:
  assumes "groupMessages rt ms [] = Inr cmap" "c \<in> set (map snd cmap)"
  shows "represents rt ms (phone c) c"
proof -
  from groupMessages_summarises [OF summarises_empty assms(1)] have s: "summarises rt ms cmap" by simp
  from assms(2) obtain k where "(k, c) \<in> set cmap" by auto
  with s have "map_of cmap k = Some c" by (simp add: summarises_def)
  with s have "represents rt ms k c" by (auto simp: summarises_def split: option.splits dest: spec [of _ k])
  then show ?thesis by (simp add: represents_def)
qed


lemma represents_valid:
  "represents rt ms k c \<Longrightarrow> \<exists>t. parseDate rt (contactTimestamp c) = Some t"
  unfolding represents_def by auto

lemma groupStep_succeeds:
  assumes "summarises rt ms cmap" "parseDate rt (timestamp m) = Some t"
  shows "\<exists>cmap'. groupStep rt m cmap = Inr cmap'"
proof (cases "map_of cmap (conversationId m)")
  case None
  with assms(2) show ?thesis
    by (simp add: groupStep_def Let_def dateToISOString_def)
next
  case (Some c)
  with assms(1) have "represents rt ms (conversationId m) c"
    by (auto simp: summarises_def split: option.splits dest: spec [of _ "conversationId m"])
  from represents_valid [OF this] obtain t0 where "parseDate rt (contactTimestamp c) = Some t0"
    by auto
  with Some assms(2) show ?thesis
    by (simp add: groupStep_def Let_def dateToISOString_def)
qed

lemma groupMessages_succeeds:
  "summarises rt before cmap \<Longrightarrow> \<forall>m \<in> set ms. parseDate rt (timestamp m) \<noteq> None \<Longrightarrow>
   \<exists>cmap'. groupMessages rt ms cmap = Inr cmap'"
proof (induction ms arbitrary: before cmap)
  case Nil
  show ?case by simp
next
  case (Cons m ms)
  from Cons.prems(2) obtain t where "parseDate rt (timestamp m) = Some t" by auto
  from groupStep_succeeds [OF Cons.prems(1) this] obtain cmap1
    where s1: "groupStep rt m cmap = Inr cmap1" by auto
  from groupStep_summarises [OF Cons.prems(1) s1] have "summarises rt (before @ [m]) cmap1" .
  from Cons.IH [OF this] Cons.prems(2) s1 show ?case by simp
qed

lemma newestFirst_alt: "newestFirst rt cs = sorted_wrt (newerOrEqual rt) cs"
  by (simp add: newestFirst_def)

lemma insertSorted_newestFirst:
  assumes "parseDate rt (contactTimestamp x) \<noteq> None"
    and "\<forall>c \<in> set xs. parseDate rt (contactTimestamp c) \<noteq> None"
    and "sorted_wrt (newerOrEqual rt) xs"
  shows "sorted_wrt (newerOrEqual rt) (insertSorted (contactsDescending rt) x xs)"
  using assms
proof (induction xs)
  case Nil
  show ?case by simp
next
  case (Cons y ys)
  from Cons.prems obtain tx ty where tx: "parseDate rt (contactTimestamp x) = Some tx"
    and ty: "parseDate rt (contactTimestamp y) = Some ty" by auto
  have cmp: "contactsDescending rt x y = ty - tx"
    by (simp add: contactsDescending_def timeDifference_def tx ty)
  show ?case
  proof (cases "tx < ty")
    case True
    have yx: "newerOrEqual rt y x" using True by (simp add: newerOrEqual_def tx ty)
    from Cons have "sorted_wrt (newerOrEqual rt) (insertSorted (contactsDescending rt) x ys)"
      by simp
    with Cons.prems(3) yx True cmp show ?thesis
      by (simp add: set_insertSorted)
  next
    case False
    have xy: "newerOrEqual rt x y" using False by (simp add: newerOrEqual_def tx ty)
    have "newerOrEqual rt x z" if "z \<in> set ys" for z
    proof -
      from that Cons.prems(3) have "newerOrEqual rt y z" by simp
      with False show ?thesis
        by (auto simp: newerOrEqual_def tx ty split: option.splits)
    qed
    with Cons.prems(3) xy False cmp show ?thesis by simp
  qed
qed

lemma arraySort_newestFirst:
  "\<forall>c \<in> set cs. parseDate rt (contactTimestamp c) \<noteq> None \<Longrightarrow>
   newestFirst rt (arraySort (contactsDescending rt) cs)"
proof (induction cs)
  case Nil
  show ?case by (simp add: newestFirst_alt arraySort_def)
next
  case (Cons c cs)
  have step: "arraySort (contactsDescending rt) (c # cs) =
      insertSorted (contactsDescending rt) c (arraySort (contactsDescending rt) cs)"
    by (simp add: arraySort_def)
  from Cons have "sorted_wrt (newerOrEqual rt) (arraySort (contactsDescending rt) cs)"
    by (simp add: newestFirst_alt)
  with Cons.prems show ?case
    unfolding newestFirst_alt step
    by (intro insertSorted_newestFirst) (simp_all add: set_arraySort)
qed

lemma fetchConversations_frame: "snd (fetchConversations rt s) = s"
  by (simp add: fetchConversations_def split: sum.splits)

lemma fetchConversations_reads_messages:
  "allMessages s' = allMessages s \<Longrightarrow>
   fst (fetchConversations rt s') = fst (fetchConversations rt s)"
  by (simp add: fetchConversations_def split: sum.splits)

lemma fetchConversations_newestFirst: "newestFirst rt (data (fst (fetchConversations rt s)))"
proof (cases "groupMessages rt (allMessages s) []")
  case (Inl e)
  then show ?thesis by (simp add: fetchConversations_def newestFirst_def)
next
  case (Inr cmap)
  have "\<forall>c \<in> set (map snd cmap). parseDate rt (contactTimestamp c) \<noteq> None"
    using grouped_represents [OF Inr] represents_valid by fastforce
  from arraySort_newestFirst [OF this] Inr show ?thesis
    by (simp add: fetchConversations_def)
qed

text \<open>
  Claim C9. \<^verbatim>\<open>fetchConversations\<close> leaves the state as it is, a second call gives the
  same result as the first, the result depends on the state through the message list
  only, and the list of conversations it returns is ordered newest first by the instant
  of the representative message.
\<close>

theorem conversations_pure:
  "snd (fetchConversations rt s) = s \<and>
   fetchConversations rt (snd (fetchConversations rt s)) = fetchConversations rt s \<and>
   (allMessages s' = allMessages s \<longrightarrow>
      fst (fetchConversations rt s') = fst (fetchConversations rt s)) \<and>
   newestFirst rt (data (fst (fetchConversations rt s)))"
  using fetchConversations_reads_messages [of s' s rt]
  by (simp add: fetchConversations_frame fetchConversations_newestFirst)

text \<open>
  Claim C5, as amended. The summary of a group takes its unread flag, its text and its
  timestamp from the representative of the group: the first message, in the order of
  the store, among those of the group with the maximum instant. It is unread exactly
  when that message is incoming. So when one message of the group is later than every
  other one, the summary is unread if it is incoming and read if it is outgoing,
  whatever earlier messages the group has. When every stored timestamp is a valid
  date, every group has a summary in the result.
\<close>

theorem unread_of_representative:
  "(c \<in> set (data (fst (fetchConversations rt s))) \<and>
    i < length (allMessages s) \<and> conversationId (allMessages s ! i) = phone c \<and>
    (\<forall>j < length (allMessages s). conversationId (allMessages s ! j) = phone c \<longrightarrow>
       \<not> dateGreater (parseDate rt (timestamp (allMessages s ! j)))
                     (parseDate rt (timestamp (allMessages s ! i))) \<and>
       (j < i \<longrightarrow> dateGreater (parseDate rt (timestamp (allMessages s ! i)))
                               (parseDate rt (timestamp (allMessages s ! j))))) \<longrightarrow>
      unread c = (direction (allMessages s ! i) = Incoming) \<and>
      lastMessage c = body (allMessages s ! i) \<and>
      contactTimestamp c = timestamp (allMessages s ! i)) \<and>
   (c \<in> set (data (fst (fetchConversations rt s))) \<and>
    m \<in> set (allMessages s) \<and> conversationId m = phone c \<and>
    (\<forall>m' \<in> set (allMessages s). conversationId m' = phone c \<and> m' \<noteq> m \<longrightarrow>
       dateGreater (parseDate rt (timestamp m)) (parseDate rt (timestamp m'))) \<longrightarrow>
      unread c = (direction m = Incoming)) \<and>
   ((\<forall>m' \<in> set (allMessages s). parseDate rt (timestamp m') \<noteq> None) \<and>
    m \<in> set (allMessages s) \<longrightarrow>
      (\<exists>c \<in> set (data (fst (fetchConversations rt s))). phone c = conversationId m))"
proof (intro conjI impI)
  let ?ms = "allMessages s"
  assume a: "c \<in> set (data (fst (fetchConversations rt s))) \<and>
    i < length ?ms \<and> conversationId (?ms ! i) = phone c \<and>
    (\<forall>j < length ?ms. conversationId (?ms ! j) = phone c \<longrightarrow>
       \<not> dateGreater (parseDate rt (timestamp (?ms ! j))) (parseDate rt (timestamp (?ms ! i))) \<and>
       (j < i \<longrightarrow> dateGreater (parseDate rt (timestamp (?ms ! i)))
                               (parseDate rt (timestamp (?ms ! j)))))"
  then have cin: "c \<in> set (data (fst (fetchConversations rt s)))" by blast
  then obtain cmap where g: "groupMessages rt ?ms [] = Inr cmap"
    and c: "c \<in> set (map snd cmap)"
    by (cases "groupMessages rt ?ms []")
       (auto simp: fetchConversations_def set_arraySort)
  from grouped_represents [OF g c] obtain i0 t0 where
    i0: "i0 < length ?ms" "conversationId (?ms ! i0) = phone c"
      "contactTimestamp c = timestamp (?ms ! i0)" "lastMessage c = body (?ms ! i0)"
      "unread c = (direction (?ms ! i0) = Incoming)" "parseDate rt (timestamp (?ms ! i0)) = Some t0"
    and mx: "\<forall>j < length ?ms. conversationId (?ms ! j) = phone c \<longrightarrow>
                 (\<exists>t'. parseDate rt (timestamp (?ms ! j)) = Some t' \<and> t' \<le> t0 \<and>
                       (j < i0 \<longrightarrow> t' < t0))"
    unfolding represents_def by blast
  from a mx obtain t where t: "parseDate rt (timestamp (?ms ! i)) = Some t" "t \<le> t0"
    "i < i0 \<longrightarrow> t < t0" by blast
  from a i0 have n1: "\<not> dateGreater (parseDate rt (timestamp (?ms ! i0)))
                                    (parseDate rt (timestamp (?ms ! i)))"
    and n2: "i0 < i \<longrightarrow> dateGreater (parseDate rt (timestamp (?ms ! i)))
                                    (parseDate rt (timestamp (?ms ! i0)))"
    by blast+
  from n1 t i0 have eq: "t0 = t" by simp
  with t have "\<not> i < i0" by simp
  moreover from n2 t i0 eq have "\<not> i0 < i" by simp
  ultimately have same: "i = i0" by simp
  from i0 same show "unread c = (direction (?ms ! i) = Incoming)" by simp
  from i0 same show "lastMessage c = body (?ms ! i)" by simp
  from i0 same show "contactTimestamp c = timestamp (?ms ! i)" by simp
next
  let ?ms = "allMessages s"
  assume a: "c \<in> set (data (fst (fetchConversations rt s))) \<and>
    m \<in> set ?ms \<and> conversationId m = phone c \<and>
    (\<forall>m' \<in> set ?ms. conversationId m' = phone c \<and> m' \<noteq> m \<longrightarrow>
       dateGreater (parseDate rt (timestamp m)) (parseDate rt (timestamp m')))"
  then have cin: "c \<in> set (data (fst (fetchConversations rt s)))" by blast
  then obtain cmap where g: "groupMessages rt ?ms [] = Inr cmap"
    and c: "c \<in> set (map snd cmap)"
    by (cases "groupMessages rt ?ms []")
       (auto simp: fetchConversations_def set_arraySort)
  from grouped_represents [OF g c] obtain i0 t0 where
    i0: "i0 < length ?ms" "conversationId (?ms ! i0) = phone c"
      "unread c = (direction (?ms ! i0) = Incoming)" "parseDate rt (timestamp (?ms ! i0)) = Some t0"
    and mx: "\<forall>j < length ?ms. conversationId (?ms ! j) = phone c \<longrightarrow>
                 (\<exists>t'. parseDate rt (timestamp (?ms ! j)) = Some t' \<and> t' \<le> t0)"
    unfolding represents_def by blast
  from a obtain j where j: "j < length ?ms" "?ms ! j = m"
    by (auto simp: in_set_conv_nth)
  with a mx obtain t where t: "parseDate rt (timestamp m) = Some t" "t \<le> t0" by force
  have "?ms ! i0 = m"
  proof (rule ccontr)
    assume ne: "?ms ! i0 \<noteq> m"
    from i0(1) have "?ms ! i0 \<in> set ?ms" by simp
    with a i0(2) ne have "dateGreater (parseDate rt (timestamp m))
                                      (parseDate rt (timestamp (?ms ! i0)))"
      by blast
    with t i0(4) show False by simp
  qed
  with i0 show "unread c = (direction m = Incoming)" by simp
next
  assume b: "(\<forall>m' \<in> set (allMessages s). parseDate rt (timestamp m') \<noteq> None) \<and>
    m \<in> set (allMessages s)"
  then have "\<forall>m' \<in> set (allMessages s). parseDate rt (timestamp m') \<noteq> None" by blast
  from groupMessages_succeeds [OF summarises_empty this] obtain cmap
    where g: "groupMessages rt (allMessages s) [] = Inr cmap" by auto
  from groupMessages_summarises [OF summarises_empty g] have sm: "summarises rt (allMessages s) cmap"
    by simp
  from b have "conversationId m \<in> conversationId ` set (allMessages s)" by blast
  with sm obtain c where mc: "map_of cmap (conversationId m) = Some c"
    and r: "represents rt (allMessages s) (conversationId m) c"
    by (auto simp: summarises_def split: option.splits dest!: spec [of _ "conversationId m"])
  from mc have "c \<in> set (map snd cmap)" by (force dest: map_of_SomeD)
  with g r show "\<exists>c \<in> set (data (fst (fetchConversations rt s))). phone c = conversationId m"
    by (auto simp: fetchConversations_def set_arraySort represents_def)
qed

lemma sampleStore_messages:
  "allMessages sampleStore =
     [\<lparr>conversationId = ''555'', timestamp = ''2025-01-01T10:00:00.000Z'', body = ''hi'',
       direction = Incoming, msgId = Some ''a'', status = None\<rparr>,
      \<lparr>conversationId = ''555'', timestamp = ''2025-01-01T11:00:00.000Z'', body = ''hello'',
       direction = Outgoing, msgId = Some ''b'', status = Some Delivered\<rparr>,
      \<lparr>conversationId = ''777'', timestamp = ''2025-01-01T12:00:00.000Z'', body = ''ping'',
       direction = Incoming, msgId = Some ''c'', status = None\<rparr>]"
  unfolding sampleStore_def replaceAll_allMessages
  by (simp add: sample_defs eval_defs)

lemma sample_times:
  "parseDate sampleRuntime ''2025-01-01T10:00:00.000Z'' = Some 1735725600000"
  "parseDate sampleRuntime ''2025-01-01T11:00:00.000Z'' = Some 1735729200000"
  "parseDate sampleRuntime ''2025-01-01T12:00:00.000Z'' = Some 1735732800000"
  by (simp_all add: sampleRuntime_def sampleLocale_def sampleInstants_def)

lemma sample_conversations:
  "fst (fetchConversations sampleRuntime sampleStore) =
     \<lparr>data =
        [\<lparr>phone = ''777'', name = ''777'', lastMessage = ''ping'',
          contactTimestamp = ''2025-01-01T12:00:00.000Z'', unread = True\<rparr>,
         \<lparr>phone = ''555'', name = ''555'', lastMessage = ''hello'',
          contactTimestamp = ''2025-01-01T11:00:00.000Z'', unread = False\<rparr>],
      error = None\<rparr>"
  unfolding fetchConversations_def sampleStore_messages
  by (simp add: groupStep_def Let_def dateToISOString_def sample_times formatPhoneNumber_def
      isDigit_def arraySort_def contactsDescending_def timeDifference_def)

theorem conversations_pure_witness:
  "allMessages (sampleStore\<lparr>retryTimeout := Some 0\<rparr>) = allMessages sampleStore \<and>
   fst (fetchConversations sampleRuntime (sampleStore\<lparr>retryTimeout := Some 0\<rparr>)) =
     fst (fetchConversations sampleRuntime sampleStore) \<and>
   snd (fetchConversations sampleRuntime sampleStore) = sampleStore \<and>
   newestFirst sampleRuntime
     [\<lparr>phone = ''777'', name = ''777'', lastMessage = ''ping'',
       contactTimestamp = ''2025-01-01T12:00:00.000Z'', unread = True\<rparr>,
      \<lparr>phone = ''555'', name = ''555'', lastMessage = ''hello'',
       contactTimestamp = ''2025-01-01T11:00:00.000Z'', unread = False\<rparr>]"
proof -
  note T = conversations_pure [of sampleRuntime sampleStore "sampleStore\<lparr>retryTimeout := Some 0\<rparr>"]
  have h: "allMessages (sampleStore\<lparr>retryTimeout := Some 0\<rparr>) = allMessages sampleStore"
    by simp
  from T have "newestFirst sampleRuntime (data (fst (fetchConversations sampleRuntime sampleStore)))"
    by blast
  then have n: "newestFirst sampleRuntime
     [\<lparr>phone = ''777'', name = ''777'', lastMessage = ''ping'',
       contactTimestamp = ''2025-01-01T12:00:00.000Z'', unread = True\<rparr>,
      \<lparr>phone = ''555'', name = ''555'', lastMessage = ''hello'',
       contactTimestamp = ''2025-01-01T11:00:00.000Z'', unread = False\<rparr>]"
    by (simp only: sample_conversations ApiResponse.simps)
  from T h n show ?thesis by blast
qed

theorem unread_of_representative_witness:
  "\<lparr>phone = ''555'', name = ''555'', lastMessage = ''hello'',
     contactTimestamp = ''2025-01-01T11:00:00.000Z'', unread = False\<rparr>
     \<in> set (data (fst (fetchConversations sampleRuntime sampleStore))) \<and>
   allMessages sampleStore ! 0 =
     \<lparr>conversationId = ''555'', timestamp = ''2025-01-01T10:00:00.000Z'', body = ''hi'',
      direction = Incoming, msgId = Some ''a'', status = None\<rparr> \<and>
   allMessages sampleStore ! 1 =
     \<lparr>conversationId = ''555'', timestamp = ''2025-01-01T11:00:00.000Z'', body = ''hello'',
      direction = Outgoing, msgId = Some ''b'', status = Some Delivered\<rparr> \<and>
   unread \<lparr>phone = ''555'', name = ''555'', lastMessage = ''hello'',
     contactTimestamp = ''2025-01-01T11:00:00.000Z'', unread = False\<rparr> =
     (direction (allMessages sampleStore ! 1) = Incoming)"
proof -
  let ?c = "\<lparr>phone = ''555'', name = ''555'', lastMessage = ''hello'',
     contactTimestamp = ''2025-01-01T11:00:00.000Z'', unread = False\<rparr>"
  let ?ms = "allMessages sampleStore"
  note T = unread_of_representative [where c = ?c and rt = sampleRuntime and s = sampleStore
      and i = 1]
  have h: "?c \<in> set (data (fst (fetchConversations sampleRuntime sampleStore))) \<and>
    1 < length ?ms \<and> conversationId (?ms ! 1) = phone ?c \<and>
    (\<forall>j < length ?ms. conversationId (?ms ! j) = phone ?c \<longrightarrow>
       \<not> dateGreater (parseDate sampleRuntime (timestamp (?ms ! j)))
                     (parseDate sampleRuntime (timestamp (?ms ! 1))) \<and>
       (j < 1 \<longrightarrow> dateGreater (parseDate sampleRuntime (timestamp (?ms ! 1)))
                               (parseDate sampleRuntime (timestamp (?ms ! j)))))"
    by (simp add: sample_conversations sampleStore_messages sample_times All_less_Suc)
  have e: "?ms ! 0 =
     \<lparr>conversationId = ''555'', timestamp = ''2025-01-01T10:00:00.000Z'', body = ''hi'',
      direction = Incoming, msgId = Some ''a'', status = None\<rparr>"
    "?ms ! 1 =
     \<lparr>conversationId = ''555'', timestamp = ''2025-01-01T11:00:00.000Z'', body = ''hello'',
      direction = Outgoing, msgId = Some ''b'', status = Some Delivered\<rparr>"
    by (simp_all add: sampleStore_messages)
  from T h have "unread ?c = (direction (?ms ! 1) = Incoming)" by blast
  with h e show ?thesis by blast
qed

lemma tieStore_messages:
  "allMessages tieStore =
     [\<lparr>conversationId = ''555'', timestamp = ''2025-01-01T11:00:00.000Z'', body = ''hi again'',
       direction = Incoming, msgId = Some ''a'', status = None\<rparr>,
      \<lparr>conversationId = ''555'', timestamp = ''2025-01-01T11:00:00.000Z'', body = ''hello'',
       direction = Outgoing, msgId = Some ''b'', status = Some Delivered\<rparr>]"
  unfolding tieStore_def replaceAll_allMessages
  by (simp add: sample_defs eval_defs)

text \<open>
  The claim as stated fails: after a poll that fetched an incoming and an outgoing
  message of one conversation with the same timestamp, the outgoing message has the
  maximum timestamp of its group, and the summary of the group is unread.
\<close>

theorem unread_with_latest_outgoing_counterexample:
  "allMessages tieStore =
     [\<lparr>conversationId = ''555'', timestamp = ''2025-01-01T11:00:00.000Z'', body = ''hi again'',
       direction = Incoming, msgId = Some ''a'', status = None\<rparr>,
      \<lparr>conversationId = ''555'', timestamp = ''2025-01-01T11:00:00.000Z'', body = ''hello'',
       direction = Outgoing, msgId = Some ''b'', status = Some Delivered\<rparr>] \<and>
   parseDate sampleRuntime ''2025-01-01T11:00:00.000Z'' = Some 1735729200000 \<and>
   fst (fetchConversations sampleRuntime tieStore) =
     \<lparr>data =
        [\<lparr>phone = ''555'', name = ''555'', lastMessage = ''hi again'',
          contactTimestamp = ''2025-01-01T11:00:00.000Z'', unread = True\<rparr>],
      error = None\<rparr>"
proof -
  have "fst (fetchConversations sampleRuntime tieStore) =
     \<lparr>data =
        [\<lparr>phone = ''555'', name = ''555'', lastMessage = ''hi again'',
          contactTimestamp = ''2025-01-01T11:00:00.000Z'', unread = True\<rparr>],
      error = None\<rparr>"
    unfolding fetchConversations_def tieStore_messages
    by (simp add: groupStep_def Let_def dateToISOString_def sample_times formatPhoneNumber_def
        isDigit_def arraySort_def contactsDescending_def timeDifference_def)
  with tieStore_messages sample_times(2) show ?thesis by blast
qed

end
